theory Spec2Isabelle
  imports Complex_Main
begin

section \<open>Configuration (config.py)\<close>

text \<open>
  Python floats (binary64) are read as mathematical reals and Python ints are \<open>int\<close>.
  The cells of the two NumPy arrays are \<open>float32\<close>: every value stored in them is a
  real rounded to binary32 (function \<open>f32\<close> below).
\<close>

definition GRID_WIDTH :: int where "GRID_WIDTH = 100"
definition GRID_HEIGHT :: int where "GRID_HEIGHT = 100"

definition MAX_NUTRIENT :: real where "MAX_NUTRIENT = 10.0"
definition NUTRIENT_SPAWN_RATE :: real where "NUTRIENT_SPAWN_RATE = 0.05"
definition NUTRIENT_DECAY :: real where "NUTRIENT_DECAY = 0.995"
definition DIFFUSION_FACTOR :: real where "DIFFUSION_FACTOR = 0.1"
definition DEAD_BODY_NUTRIENT :: real where "DEAD_BODY_NUTRIENT = 5.0"

definition SUN_MAX_INTENSITY :: real where "SUN_MAX_INTENSITY = 10.0"
definition SUN_PENETRATION_DEPTH :: real where "SUN_PENETRATION_DEPTH = 0.7"
definition PHOTOSYNTHESIS_RATE :: real where "PHOTOSYNTHESIS_RATE = 0.5"

definition COLONY_SHARING_RATE :: real where "COLONY_SHARING_RATE = 0.5"

definition MUTATION_RATE :: real where "MUTATION_RATE = 0.05"
definition MUTATION_STRENGTH :: real where "MUTATION_STRENGTH = 0.1"

definition PREDATOR_THRESHOLD_ENERGY :: real where "PREDATOR_THRESHOLD_ENERGY = 40.0"
definition PREDATOR_THRESHOLD_SIZE :: real where "PREDATOR_THRESHOLD_SIZE = 2.5"
definition PREDATOR_THRESHOLD_OFFSPRING :: int where "PREDATOR_THRESHOLD_OFFSPRING = 3"
definition PREDATOR_METABOLISM_PENALTY :: real where "PREDATOR_METABOLISM_PENALTY = 1.5"

definition CYCLE_LENGTH :: int where "CYCLE_LENGTH = 600"
definition DAY_RATIO :: real where "DAY_RATIO = 0.5"
definition NIGHT_METABOLISM_FACTOR :: real where "NIGHT_METABOLISM_FACTOR = 1.5"
definition NIGHT_MOVE_CHANCE :: real where "NIGHT_MOVE_CHANCE = 0.3"

definition PREDATOR_DAY_ACTIVITY :: bool where "PREDATOR_DAY_ACTIVITY = False"
definition PREDATOR_EAT_EFFICIENCY :: real where "PREDATOR_EAT_EFFICIENCY = 0.8"

lemmas config_defs =
  GRID_WIDTH_def GRID_HEIGHT_def MAX_NUTRIENT_def NUTRIENT_SPAWN_RATE_def
  NUTRIENT_DECAY_def DIFFUSION_FACTOR_def DEAD_BODY_NUTRIENT_def
  SUN_MAX_INTENSITY_def SUN_PENETRATION_DEPTH_def PHOTOSYNTHESIS_RATE_def
  COLONY_SHARING_RATE_def MUTATION_RATE_def MUTATION_STRENGTH_def
  PREDATOR_THRESHOLD_ENERGY_def PREDATOR_THRESHOLD_SIZE_def
  PREDATOR_THRESHOLD_OFFSPRING_def PREDATOR_METABOLISM_PENALTY_def
  CYCLE_LENGTH_def DAY_RATIO_def NIGHT_METABOLISM_FACTOR_def NIGHT_MOVE_CHANCE_def
  PREDATOR_DAY_ACTIVITY_def PREDATOR_EAT_EFFICIENCY_def

section \<open>The random source\<close>

text \<open>
  Python's \<open>random\<close> module is a stream of raw draws, consumed one per call in
  program order. \<open>random.random()\<close> is a 53-bit fraction in \<open>[0, 1)\<close>;
  \<open>uniform(a, b)\<close> is \<open>a + (b - a) * random()\<close>; \<open>randint\<close> and
  \<open>choice\<close> pick below a bound; \<open>shuffle\<close> is the Fisher-Yates loop
  from the last index down to 1.
\<close>

type_synonym rng = "nat \<Rightarrow> nat"

definition rng_tail :: "rng \<Rightarrow> rng" where
  "rng_tail g = (\<lambda>n. g (Suc n))"

definition random_random :: "rng \<Rightarrow> real \<times> rng" where
  "random_random g = (real (g 0 mod 2 ^ 53) / 2 ^ 53, rng_tail g)"

definition random_uniform :: "real \<Rightarrow> real \<Rightarrow> rng \<Rightarrow> real \<times> rng" where
  "random_uniform a b g = (a + (b - a) * fst (random_random g), snd (random_random g))"

definition randbelow :: "nat \<Rightarrow> rng \<Rightarrow> nat \<times> rng" where
  "randbelow n g = (g 0 mod n, rng_tail g)"

definition random_randint :: "int \<Rightarrow> int \<Rightarrow> rng \<Rightarrow> int \<times> rng" where
  "random_randint a b g = (a + int (fst (randbelow (nat (b - a + 1)) g)), rng_tail g)"

text \<open>\<open>random.choice\<close> is only ever called on the three-element list \<open>[-1, 0, 1]\<close>.\<close>

definition random_choice3 :: "int \<Rightarrow> int \<Rightarrow> int \<Rightarrow> rng \<Rightarrow> int \<times> rng" where
  "random_choice3 a b c g =
     (let k = fst (randbelow 3 g)
      in (if k = 0 then a else if k = 1 then b else c, rng_tail g))"

definition swap :: "nat \<Rightarrow> nat \<Rightarrow> 'a list \<Rightarrow> 'a list" where
  "swap i j xs = (xs[i := xs ! j])[j := xs ! i]"

fun shuffle_from :: "nat \<Rightarrow> 'a list \<Rightarrow> rng \<Rightarrow> 'a list \<times> rng" where
  "shuffle_from 0 xs g = (xs, g)"
| "shuffle_from (Suc i) xs g =
     shuffle_from i (swap (Suc i) (fst (randbelow (Suc (Suc i)) g)) xs) (rng_tail g)"

definition random_shuffle :: "'a list \<Rightarrow> rng \<Rightarrow> 'a list \<times> rng" where
  "random_shuffle xs g = shuffle_from (length xs - 1) xs g"

section \<open>Genome and agent (agent.py)\<close>

record genes =
  metabolism :: real
  repro_threshold :: real
  sense_range :: int
  size_gene :: real
  photosynthesis_efficiency :: real
  adhesion :: real

record agent =
  ident :: int
  x_of :: int
  y_of :: int
  energy :: real
  age :: int
  generation :: int
  is_alive :: bool
  is_predator :: bool
  offspring_count :: int
  genes :: genes

text \<open>
  \<open>Agent.__init__\<close> with an explicit genome (the only way the tick creates agents).
  The identifier is one \<open>randint(0, 1000000)\<close> draw. The display colour is a
  function of genome and predator flag read by the renderer alone and is left out.
  The coordinate fields \<open>x\<close>, \<open>y\<close> are named \<open>x_of\<close>, \<open>y_of\<close>.
\<close>

definition Agent :: "int \<Rightarrow> int \<Rightarrow> genes \<Rightarrow> real \<Rightarrow> int \<Rightarrow> rng \<Rightarrow> agent \<times> rng" where
  "Agent ax ay gs e gen g =
     (\<lparr>ident = fst (random_randint 0 1000000 g), x_of = ax, y_of = ay, energy = e, age = 0,
       generation = gen, is_alive = True, is_predator = False, offspring_count = 0,
       genes = gs\<rparr>, snd (random_randint 0 1000000 g))"

text \<open>
  Agents are mutable objects shared between the population list, the spatial index and
  the neighbour lists, so within a tick they live in a store addressed by reference:
  the list of all agents allocated so far, a reference being a position in it.
\<close>

type_synonym ref = nat
type_synonym heap = "agent list"

definition check_evolution :: "agent \<Rightarrow> agent" where
  "check_evolution a =
     (if \<not> is_predator a then
        (if energy a > PREDATOR_THRESHOLD_ENERGY \<and>
            size_gene (genes a) > PREDATOR_THRESHOLD_SIZE \<and>
            offspring_count a \<ge> PREDATOR_THRESHOLD_OFFSPRING
         then a\<lparr>is_predator := True\<rparr> else a)
      else a)"

subsection \<open>Mutation\<close>

text \<open>Python 3 \<open>round\<close> on a float: nearest integer, ties to the even one.\<close>

definition py_round :: "real \<Rightarrow> int" where
  "py_round v =
     (let f = \<lfloor>v\<rfloor>; d = v - of_int f
      in if d < 1 / 2 then f else if d > 1 / 2 then f + 1
         else if even f then f else f + 1)"

text \<open>
  One pass of the loop body for a real-valued trait with bounds \<open>(mn, mx)\<close>, and for
  the integer trait \<open>sense_range\<close>.
\<close>

definition mutate_real :: "real \<Rightarrow> real \<Rightarrow> real \<Rightarrow> rng \<Rightarrow> real \<times> rng" where
  "mutate_real mn mx val g =
     (if fst (random_random g) < MUTATION_RATE then
        let g1 = snd (random_random g);
            change = val * fst (random_uniform (- MUTATION_STRENGTH) MUTATION_STRENGTH g1);
            new_val = val + change
        in (max mn (min mx new_val),
            snd (random_uniform (- MUTATION_STRENGTH) MUTATION_STRENGTH g1))
      else (val, snd (random_random g)))"

definition mutate_int :: "int \<Rightarrow> int \<Rightarrow> int \<Rightarrow> rng \<Rightarrow> int \<times> rng" where
  "mutate_int mn mx val g =
     (if fst (random_random g) < MUTATION_RATE then
        let g1 = snd (random_random g);
            change = of_int val * fst (random_uniform (- MUTATION_STRENGTH) MUTATION_STRENGTH g1);
            new_val = py_round (of_int val + change)
        in (max mn (min mx new_val),
            snd (random_uniform (- MUTATION_STRENGTH) MUTATION_STRENGTH g1))
      else (val, snd (random_random g)))"

text \<open>The dictionary is walked in insertion order, each trait with its \<open>GENE_BOUNDS\<close>.\<close>

definition mutate_genes :: "genes \<Rightarrow> rng \<Rightarrow> genes \<times> rng" where
  "mutate_genes gs g0 =
     (let (m, g1) = mutate_real 0.1 2.0 (metabolism gs) g0;
          (rt, g2) = mutate_real 10.0 60.0 (repro_threshold gs) g1;
          (sr, g3) = mutate_int 1 5 (sense_range gs) g2;
          (sz, g4) = mutate_real 1.0 3.0 (size_gene gs) g3;
          (pe, g5) = mutate_real 0.0 1.0 (photosynthesis_efficiency gs) g4;
          (ad, g6) = mutate_real 0.0 1.0 (adhesion gs) g5
      in (\<lparr>metabolism = m, repro_threshold = rt, sense_range = sr, size_gene = sz,
           photosynthesis_efficiency = pe, adhesion = ad\<rparr>, g6))"

definition genes_in_bounds :: "genes \<Rightarrow> bool" where
  "genes_in_bounds gs \<longleftrightarrow>
     0.1 \<le> metabolism gs \<and> metabolism gs \<le> 2.0 \<and>
     10.0 \<le> repro_threshold gs \<and> repro_threshold gs \<le> 60.0 \<and>
     1 \<le> sense_range gs \<and> sense_range gs \<le> 5 \<and>
     1.0 \<le> size_gene gs \<and> size_gene gs \<le> 3.0 \<and>
     0.0 \<le> photosynthesis_efficiency gs \<and> photosynthesis_efficiency gs \<le> 1.0 \<and>
     0.0 \<le> adhesion gs \<and> adhesion gs \<le> 1.0"

text \<open>
  For stating what one call does to each trait: the random source as it stands when the
  loop reaches trait number \<open>k\<close> (0 for metabolism up to 5 for adhesion, each earlier
  trait having consumed one draw, or two when it was mutated), whether that trait is
  selected (its first draw falls below \<open>MUTATION_RATE\<close>), and the perturbed value
  \<open>val + val * uniform(-MUTATION_STRENGTH, MUTATION_STRENGTH)\<close> computed from its second
  draw.
\<close>

definition rng_at :: "nat \<Rightarrow> genes \<Rightarrow> rng \<Rightarrow> rng" where
  "rng_at k gs g0 =
     (let g1 = snd (mutate_real 0.1 2.0 (metabolism gs) g0);
          g2 = snd (mutate_real 10.0 60.0 (repro_threshold gs) g1);
          g3 = snd (mutate_int 1 5 (sense_range gs) g2);
          g4 = snd (mutate_real 1.0 3.0 (size_gene gs) g3);
          g5 = snd (mutate_real 0.0 1.0 (photosynthesis_efficiency gs) g4)
      in [g0, g1, g2, g3, g4, g5] ! k)"

definition selected :: "nat \<Rightarrow> genes \<Rightarrow> rng \<Rightarrow> bool" where
  "selected k gs g0 \<longleftrightarrow> fst (random_random (rng_at k gs g0)) < MUTATION_RATE"

definition perturbed :: "nat \<Rightarrow> real \<Rightarrow> genes \<Rightarrow> rng \<Rightarrow> real" where
  "perturbed k v gs g0 =
     v + v * fst (random_uniform (- MUTATION_STRENGTH) MUTATION_STRENGTH
                    (snd (random_random (rng_at k gs g0))))"

subsection \<open>Photosynthesis and colony sharing\<close>

definition photosynthesize :: "real \<Rightarrow> agent \<Rightarrow> agent" where
  "photosynthesize sunlight_intensity a =
     a\<lparr>energy := energy a +
          sunlight_intensity * photosynthesis_efficiency (genes a) * PHOTOSYNTHESIS_RATE\<rparr>"

text \<open>
  The loop of \<open>handle_colony\<close> over the neighbour references. Both writes go through
  the store, so a neighbour list that mentions an agent twice (or the caller itself)
  behaves as the shared objects do.
\<close>

fun colony_loop :: "heap \<Rightarrow> ref \<Rightarrow> ref list \<Rightarrow> bool \<Rightarrow> heap \<times> bool" where
  "colony_loop h self [] attached = (h, attached)"
| "colony_loop h self (other # rest) attached =
     (if adhesion (genes (h ! other)) \<ge> 0.5 then
        let diff = energy (h ! self) - energy (h ! other);
            h2 = (if \<bar>diff\<bar> > 1.0 then
                    let transfer = diff * COLONY_SHARING_RATE * 0.5;
                        h1 = h[self := (h ! self)\<lparr>energy := energy (h ! self) - transfer\<rparr>]
                    in h1[other := (h1 ! other)\<lparr>energy := energy (h1 ! other) + transfer\<rparr>]
                  else h)
        in colony_loop h2 self rest True
      else colony_loop h self rest attached)"

definition handle_colony :: "heap \<Rightarrow> ref \<Rightarrow> ref list \<Rightarrow> heap \<times> bool" where
  "handle_colony h self neighbors =
     (if adhesion (genes (h ! self)) < 0.5 then (h, False)
      else colony_loop h self neighbors False)"

subsection \<open>Sensing and movement\<close>

type_synonym grid = "int \<times> int \<Rightarrow> real"

text \<open>
  A NumPy array of shape \<open>(GRID_WIDTH, GRID_HEIGHT)\<close> is a function on cells; only
  the cells \<open>[0, GRID_WIDTH) \<times> [0, GRID_HEIGHT)\<close> belong to the array. Reading or
  writing \<open>a[i, j]\<close> accepts a negative index down to minus the extent (counted from
  the end) and raises IndexError beyond; a slice \<open>a[lo:hi]\<close> never raises, it clips.
\<close>

datatype error = IndexError

definition np_norm :: "int \<Rightarrow> int \<Rightarrow> int \<times> int" where
  "np_norm i j = (if i < 0 then i + GRID_WIDTH else i, if j < 0 then j + GRID_HEIGHT else j)"

definition np_valid :: "int \<Rightarrow> int \<Rightarrow> bool" where
  "np_valid i j \<longleftrightarrow>
     - GRID_WIDTH \<le> i \<and> i < GRID_WIDTH \<and> - GRID_HEIGHT \<le> j \<and> j < GRID_HEIGHT"

definition np_get :: "grid \<Rightarrow> int \<Rightarrow> int \<Rightarrow> error + real" where
  "np_get a i j = (if np_valid i j then Inr (a (np_norm i j)) else Inl IndexError)"

definition np_slice :: "int \<Rightarrow> int \<Rightarrow> int \<Rightarrow> int list" where
  "np_slice lo hi n =
     (let s = (if lo < 0 then max 0 (lo + n) else min lo n);
          e = (if hi < 0 then max 0 (hi + n) else min hi n)
      in [s..e - 1])"

text \<open>\<open>np.argmax\<close> of a non-empty flat array: the first index holding the maximum.\<close>

fun argmax_from :: "nat \<Rightarrow> real \<Rightarrow> nat \<Rightarrow> real list \<Rightarrow> nat" where
  "argmax_from bi bv i [] = bi"
| "argmax_from bi bv i (v # vs) =
     (if v > bv then argmax_from i v (Suc i) vs else argmax_from bi bv (Suc i) vs)"

definition np_argmax :: "real list \<Rightarrow> nat" where
  "np_argmax vs = argmax_from 0 (hd vs) 1 (tl vs)"

text \<open>
  The scan of \<open>sense_and_move\<close>: the patch \<open>nutrient_grid[x_min:x_max, y_min:y_max]\<close>,
  and, when it is not empty, the global coordinates of its first maximum with the value
  there (row-major order, \<open>x\<close> outermost).
\<close>

definition scan_patch :: "grid \<Rightarrow> int \<Rightarrow> int \<Rightarrow> agent \<Rightarrow> (int \<times> int \<times> real) option" where
  "scan_patch nutrient_grid grid_w grid_h a =
     (let r = sense_range (genes a);
          x_min = max 0 (x_of a - r);
          x_max = min grid_w (x_of a + r + 1);
          y_min = max 0 (y_of a - r);
          y_max = min grid_h (y_of a + r + 1);
          rows = np_slice x_min x_max GRID_WIDTH;
          cols = np_slice y_min y_max GRID_HEIGHT;
          flat = concat (map (\<lambda>i. map (\<lambda>j. nutrient_grid (i, j)) cols) rows)
      in if length rows * length cols > 0 then
           let max_idx = np_argmax flat;
               local_x = int (max_idx div length cols);
               local_y = int (max_idx mod length cols)
           in Some (x_min + local_x, y_min + local_y, flat ! max_idx)
         else None)"

text \<open>
  What follows the metabolic deduction: the anchor of an attached agent, the greedy step
  towards the best cell, or the random walk.
\<close>

definition seek_move ::
  "grid \<Rightarrow> int \<Rightarrow> int \<Rightarrow> bool \<Rightarrow> agent \<Rightarrow> rng \<Rightarrow> agent \<times> (int \<times> int) \<times> rng" where
  "seek_move nutrient_grid grid_w grid_h is_attached a g =
     (if is_attached then (a, (x_of a, y_of a), g)
      else
        let best = (case scan_patch nutrient_grid grid_w grid_h a of
                      None \<Rightarrow> (x_of a, y_of a, - 1.0)
                    | Some b \<Rightarrow> b);
            best_x = fst best; best_y = fst (snd best); best_val = snd (snd best);
            found_better = (scan_patch nutrient_grid grid_w grid_h a \<noteq> None \<and> best_val > - 1.0)
        in if found_better \<and> (best_x \<noteq> x_of a \<or> best_y \<noteq> y_of a) then
             (a\<lparr>energy := energy a - metabolism (genes a) * 0.5\<rparr>,
              (x_of a + sgn (best_x - x_of a), y_of a + sgn (best_y - y_of a)), g)
           else if fst (random_random g) < 0.2 then
             let g1 = snd (random_random g);
                 dx = fst (random_choice3 (- 1) 0 1 g1);
                 g2 = snd (random_choice3 (- 1) 0 1 g1);
                 dy = fst (random_choice3 (- 1) 0 1 g2);
                 g3 = snd (random_choice3 (- 1) 0 1 g2);
                 nx = x_of a + dx; ny = y_of a + dy
             in if 0 \<le> nx \<and> nx < grid_w \<and> 0 \<le> ny \<and> ny < grid_h then
                  (a\<lparr>energy := energy a - metabolism (genes a) * 0.2\<rparr>, (nx, ny), g3)
                else (a, (x_of a, y_of a), g3)
           else (a, (x_of a, y_of a), snd (random_random g)))"

definition sense_and_move ::
  "grid \<Rightarrow> int \<Rightarrow> int \<Rightarrow> bool \<Rightarrow> bool \<Rightarrow> agent \<Rightarrow> rng \<Rightarrow> agent \<times> (int \<times> int) \<times> rng" where
  "sense_and_move nutrient_grid grid_w grid_h night is_attached a g =
     (let metab_cost = metabolism (genes a)
      in if is_predator a then
           let metab_cost = metab_cost * PREDATOR_METABOLISM_PENALTY
           in if \<not> night \<and> \<not> PREDATOR_DAY_ACTIVITY then
                (a\<lparr>energy := energy a - metab_cost * 0.1\<rparr>, (x_of a, y_of a), g)
              else seek_move nutrient_grid grid_w grid_h is_attached
                     (a\<lparr>energy := energy a - metab_cost\<rparr>) g
         else if night then
           let metab_cost = metab_cost * NIGHT_METABOLISM_FACTOR
           in if fst (random_random g) > NIGHT_MOVE_CHANCE then
                (a\<lparr>energy := energy a - metab_cost\<rparr>, (x_of a, y_of a), snd (random_random g))
              else seek_move nutrient_grid grid_w grid_h is_attached
                     (a\<lparr>energy := energy a - metab_cost\<rparr>) (snd (random_random g))
         else seek_move nutrient_grid grid_w grid_h is_attached
                (a\<lparr>energy := energy a - metab_cost\<rparr>) g)"

section \<open>Environment (environment.py)\<close>

subsection \<open>Single precision\<close>

text \<open>
  \<open>np.zeros(..., dtype=np.float32)\<close>: an operation on the array computes in binary32,
  that is, it rounds the exact result to the nearest number with a 24-bit significand,
  ties to the even one (the rule of \<open>py_round\<close>). \<open>expo\<close> is the binary exponent
  of the argument, found by counting up from the smallest normal exponent -126 (below it
  the spacing is that of the subnormals); overflow to infinity, beyond \<open>2 ^ 128\<close>, is
  left out. A Python float operand of such an operation is converted to binary32 first.
\<close>

definition pow2 :: "int \<Rightarrow> real" where
  "pow2 e = (if 0 \<le> e then 2 ^ nat e else 1 / 2 ^ nat (- e))"

fun expo_up :: "nat \<Rightarrow> int \<Rightarrow> real \<Rightarrow> int" where
  "expo_up 0 e x = e"
| "expo_up (Suc n) e x = (if pow2 (e + 1) \<le> x then expo_up n (e + 1) x else e)"

definition expo :: "real \<Rightarrow> int" where
  "expo x = expo_up 253 (- 126) \<bar>x\<bar>"

definition f32 :: "real \<Rightarrow> real" where
  "f32 x = (let u = pow2 (expo x - 23) in of_int (py_round (x / u)) * u)"

record env =
  nutrients :: grid
  agents :: "agent list"
  global_time :: int
  is_night :: bool

text \<open>The sunlight table filled in by the constructor: a function of the row \<open>y\<close> only.\<close>

definition sunlight_gradient :: grid where
  "sunlight_gradient =
     (\<lambda>(i, j). f32 (SUN_MAX_INTENSITY *
        (1.0 - (of_int j / of_int GRID_HEIGHT) * (1.0 - SUN_PENETRATION_DEPTH))))"

subsection \<open>Nutrient field update\<close>

text \<open>
  \<open>np.random.random((W, H))\<close> is a table of raw draws, one per cell, each read as a
  fraction in \<open>[0, 1)\<close>. The four stages are kept apart, with the rates as arguments;
  \<open>update_nutrients\<close> runs them with the constants of config.py.
\<close>

definition np_random :: "(int \<times> int \<Rightarrow> nat) \<Rightarrow> int \<times> int \<Rightarrow> real" where
  "np_random u c = real (u c mod 2 ^ 53) / 2 ^ 53"

definition regenerate :: "real \<Rightarrow> (int \<times> int \<Rightarrow> nat) \<Rightarrow> grid \<Rightarrow> grid" where
  "regenerate spawn_rate u nut =
     (\<lambda>c. if np_random u c < spawn_rate then f32 (nut c + 2.0) else nut c)"

text \<open>
  \<open>np.pad(..., 1, mode='wrap')\<close> copies the field with one wrapped cell on each side,
  so the four shifted views read the neighbours modulo the extent, all from the field
  as it was before the in-place scaling.
\<close>

definition diffuse :: "real \<Rightarrow> grid \<Rightarrow> grid" where
  "diffuse k nut =
     (\<lambda>(i, j).
        let left = nut ((i - 1) mod GRID_WIDTH, j);
            right = nut ((i + 1) mod GRID_WIDTH, j);
            up = nut (i, (j - 1) mod GRID_HEIGHT);
            down = nut (i, (j + 1) mod GRID_HEIGHT);
            neighbor_sum = f32 (f32 (f32 (left + right) + up) + down);
            scaled = f32 (nut (i, j) * f32 (1 - 4 * k))
        in f32 (scaled + f32 (neighbor_sum * f32 k)))"

definition decay :: "real \<Rightarrow> grid \<Rightarrow> grid" where
  "decay d nut = (\<lambda>c. f32 (nut c * f32 d))"

definition np_clip :: "real \<Rightarrow> real \<Rightarrow> grid \<Rightarrow> grid" where
  "np_clip lo hi nut = (\<lambda>c. min (max (nut c) lo) hi)"

definition nutrient_step :: "real \<Rightarrow> real \<Rightarrow> real \<Rightarrow> (int \<times> int \<Rightarrow> nat) \<Rightarrow> grid \<Rightarrow> grid" where
  "nutrient_step spawn_rate k d u nut =
     np_clip 0 MAX_NUTRIENT (decay d (diffuse k (regenerate spawn_rate u nut)))"

definition update_nutrients :: "(int \<times> int \<Rightarrow> nat) \<Rightarrow> env \<Rightarrow> env" where
  "update_nutrients u e =
     e\<lparr>nutrients :=
         nutrient_step NUTRIENT_SPAWN_RATE DIFFUSION_FACTOR NUTRIENT_DECAY u (nutrients e)\<rparr>"

definition in_grid :: "int \<times> int \<Rightarrow> bool" where
  "in_grid c \<longleftrightarrow> 0 \<le> fst c \<and> fst c < GRID_WIDTH \<and> 0 \<le> snd c \<and> snd c < GRID_HEIGHT"

definition field_in_range :: "grid \<Rightarrow> bool" where
  "field_in_range nut \<longleftrightarrow> (\<forall>c. in_grid c \<longrightarrow> 0 \<le> nut c \<and> nut c \<le> MAX_NUTRIENT)"

subsection \<open>The per-tick agent update\<close>

datatype event = Eat int int | Spawn int int int int

text \<open>
  The locals of \<open>update_agents\<close> together with the objects it mutates: the agent
  store (the population of the tick's start, then the newborns in birth order), the
  spatial index \<open>occupied\<close>, the nutrient field, the lists \<open>new_borns\<close>,
  \<open>dead_agents\<close> and \<open>events\<close>, and the random source.
\<close>

record tick =
  heap :: heap
  occupied :: "int \<times> int \<rightharpoonup> ref"
  field :: grid
  new_borns :: "ref list"
  dead_agents :: "ref list"
  events :: "event list"
  rand :: rng

text \<open>\<open>{(a.x, a.y): a for a in self.agents}\<close>: a later agent on a cell replaces an earlier one.\<close>

fun build_occupied :: "heap \<Rightarrow> ref list \<Rightarrow> (int \<times> int \<rightharpoonup> ref) \<Rightarrow> (int \<times> int \<rightharpoonup> ref)" where
  "build_occupied h [] occ = occ"
| "build_occupied h (r # rs) occ =
     build_occupied h rs (occ((x_of (h ! r), y_of (h ! r)) \<mapsto> r))"

text \<open>0. Photosynthesis: the sunlight of the agent's cell by day, nothing by night.\<close>

definition step_photosynthesis :: "bool \<Rightarrow> ref \<Rightarrow> tick \<Rightarrow> error + tick" where
  "step_photosynthesis night r st =
     (let a = heap st ! r
      in if \<not> night then
           (case np_get sunlight_gradient (x_of a) (y_of a) of
              Inl e \<Rightarrow> Inl e
            | Inr sun_intensity \<Rightarrow>
                Inr (st\<lparr>heap := (heap st)[r := photosynthesize sun_intensity a]\<rparr>))
         else Inr (st\<lparr>heap := (heap st)[r := photosynthesize 0.0 a]\<rparr>))"

text \<open>Colony logic: the occupants of the eight surrounding cells, in the order of the two loops.\<close>

definition neighbor_offsets :: "(int \<times> int) list" where
  "neighbor_offsets =
     [(- 1, - 1), (- 1, 0), (- 1, 1), (0, - 1), (0, 1), (1, - 1), (1, 0), (1, 1)]"

definition colony_neighbors :: "(int \<times> int \<rightharpoonup> ref) \<Rightarrow> agent \<Rightarrow> ref list" where
  "colony_neighbors occ a =
     List.map_filter (\<lambda>(dx, dy). occ (x_of a + dx, y_of a + dy)) neighbor_offsets"

definition step_colony :: "ref \<Rightarrow> tick \<Rightarrow> tick \<times> bool" where
  "step_colony r st =
     (let a = heap st ! r
      in if adhesion (genes a) \<ge> 0.5 then
           let neighbors = colony_neighbors (occupied st) a;
               res = handle_colony (heap st) r neighbors
           in (st\<lparr>heap := fst res\<rparr>, snd res)
         else (st, False))"

text \<open>1. Movement: the agent leaves its index entry if it still owns it and takes the target.\<close>

definition move_into :: "ref \<Rightarrow> int \<times> int \<Rightarrow> tick \<Rightarrow> tick" where
  "move_into r target st =
     (let a = heap st ! r;
          occ1 = (if occupied st (x_of a, y_of a) = Some r
                  then (occupied st)((x_of a, y_of a) := None) else occupied st)
      in st\<lparr>heap := (heap st)[r := a\<lparr>x_of := fst target, y_of := snd target\<rparr>],
            occupied := occ1(target \<mapsto> r)\<rparr>)"

definition predation_fires :: "agent \<Rightarrow> agent \<Rightarrow> bool" where
  "predation_fires a other \<longleftrightarrow>
     is_predator a \<and> \<not> is_predator other \<and> is_alive other \<and>
     size_gene (genes a) > size_gene (genes other)"

definition eat_prey :: "ref \<Rightarrow> ref \<Rightarrow> tick \<Rightarrow> tick" where
  "eat_prey r other st =
     (let a = heap st ! r;
          eat_gain = energy (heap st ! other) * PREDATOR_EAT_EFFICIENCY + DEAD_BODY_NUTRIENT;
          h1 = (heap st)[r := a\<lparr>energy := energy a + eat_gain\<rparr>];
          h2 = h1[other := (h1 ! other)\<lparr>is_alive := False\<rparr>]
      in st\<lparr>heap := h2, events := events st @ [Eat (x_of a) (y_of a)]\<rparr>)"

definition resolve_move :: "ref \<Rightarrow> int \<times> int \<Rightarrow> tick \<Rightarrow> tick" where
  "resolve_move r target st =
     (case occupied st target of
        None \<Rightarrow> move_into r target st
      | Some other \<Rightarrow>
          if predation_fires (heap st ! r) (heap st ! other)
          then move_into r target (eat_prey r other st)
          else st)"

definition step_move :: "bool \<Rightarrow> bool \<Rightarrow> ref \<Rightarrow> tick \<Rightarrow> tick" where
  "step_move night is_attached r st =
     (let res = sense_and_move (field st) GRID_WIDTH GRID_HEIGHT night is_attached
                  (heap st ! r) (rand st);
          st1 = st\<lparr>heap := (heap st)[r := fst res], rand := snd (snd res)\<rparr>
      in resolve_move r (fst (snd res)) st1)"

text \<open>2. Eating: non-predators take up to 2.0 from their cell.\<close>

definition step_eat :: "ref \<Rightarrow> tick \<Rightarrow> error + tick" where
  "step_eat r st =
     (let a = heap st ! r
      in if \<not> is_predator a then
           (case np_get (field st) (x_of a) (y_of a) of
              Inl e \<Rightarrow> Inl e
            | Inr available_food \<Rightarrow>
                let eat_amount = min available_food 2.0;
                    c = np_norm (x_of a) (y_of a)
                in Inr (st\<lparr>heap := (heap st)[r := a\<lparr>energy := energy a + eat_amount\<rparr>],
                           field := (field st)(c := f32 (field st c - eat_amount))\<rparr>))
         else Inr st)"

text \<open>
  3. Reproduction: the first candidate cell that is inside the grid and vacant receives
  the child, and the scan stops there.
\<close>

definition spawn_child :: "ref \<Rightarrow> int \<times> int \<Rightarrow> tick \<Rightarrow> tick" where
  "spawn_child r cell st =
     (let a = heap st ! r;
          split_energy = energy a / 2;
          a1 = a\<lparr>energy := split_energy\<rparr>;
          mg = mutate_genes (genes a1) (rand st);
          ch = Agent (fst cell) (snd cell) (fst mg) split_energy (generation a1 + 1) (snd mg);
          c = length (heap st)
      in st\<lparr>heap := (heap st)[r := a1\<lparr>offspring_count := offspring_count a1 + 1\<rparr>]
                     @ [fst ch],
            occupied := (occupied st)(cell \<mapsto> c),
            new_borns := new_borns st @ [c],
            events := events st @ [Spawn (x_of a) (y_of a) (fst cell) (snd cell)],
            rand := snd ch\<rparr>)"

fun repro_scan :: "ref \<Rightarrow> (int \<times> int) list \<Rightarrow> tick \<Rightarrow> tick" where
  "repro_scan r [] st = st"
| "repro_scan r (cell # rest) st =
     (if 0 \<le> fst cell \<and> fst cell < GRID_WIDTH \<and> 0 \<le> snd cell \<and> snd cell < GRID_HEIGHT
         \<and> occupied st cell = None
      then spawn_child r cell st
      else repro_scan r rest st)"

definition step_reproduce :: "ref \<Rightarrow> tick \<Rightarrow> tick" where
  "step_reproduce r st =
     (let a = heap st ! r
      in if energy a > repro_threshold (genes a) then
           let sh = random_shuffle
                      [(x_of a + 1, y_of a), (x_of a - 1, y_of a),
                       (x_of a, y_of a + 1), (x_of a, y_of a - 1)] (rand st)
           in repro_scan r (fst sh) (st\<lparr>rand := snd sh\<rparr>)
         else st)"

text \<open>4. Evolution, ageing and the starvation check.\<close>

definition step_death :: "ref \<Rightarrow> tick \<Rightarrow> tick" where
  "step_death r st =
     (let a = check_evolution (heap st ! r);
          a1 = a\<lparr>age := age a + 1\<rparr>
      in if energy a1 \<le> 0 then
           st\<lparr>heap := (heap st)[r := a1\<lparr>is_alive := False\<rparr>],
              dead_agents := dead_agents st @ [r]\<rparr>
         else st\<lparr>heap := (heap st)[r := a1]\<rparr>)"

text \<open>The body of the \<open>for agent in self.agents\<close> loop, and the loop.\<close>

definition agent_step :: "bool \<Rightarrow> ref \<Rightarrow> tick \<Rightarrow> error + tick" where
  "agent_step night r st =
     (case step_photosynthesis night r st of
        Inl e \<Rightarrow> Inl e
      | Inr st1 \<Rightarrow>
          let col = step_colony r st1;
              st3 = step_move night (snd col) r (fst col)
          in (case step_eat r st3 of
                Inl e \<Rightarrow> Inl e
              | Inr st4 \<Rightarrow> Inr (step_death r (step_reproduce r st4))))"

fun agents_loop :: "bool \<Rightarrow> ref list \<Rightarrow> tick \<Rightarrow> error + tick" where
  "agents_loop night [] st = Inr st"
| "agents_loop night (r # rs) st =
     (case agent_step night r st of
        Inl e \<Rightarrow> Inl e
      | Inr st1 \<Rightarrow> agents_loop night rs st1)"

text \<open>Recycling: \<open>self.nutrients[corpse.x, corpse.y] += DEAD_BODY_NUTRIENT\<close> per corpse.\<close>

fun recycle :: "heap \<Rightarrow> ref list \<Rightarrow> grid \<Rightarrow> error + grid" where
  "recycle h [] nut = Inr nut"
| "recycle h (corpse # rest) nut =
     (if np_valid (x_of (h ! corpse)) (y_of (h ! corpse)) then
        let c = np_norm (x_of (h ! corpse)) (y_of (h ! corpse))
        in recycle h rest (nut(c := f32 (nut c + DEAD_BODY_NUTRIENT)))
      else Inl IndexError)"

text \<open>
  The tick up to the end of the agent loop. The store starts as the population list
  itself: reference \<open>i\<close> is the \<open>i\<close>-th agent.
\<close>

definition night_at :: "int \<Rightarrow> bool" where
  "night_at t = (of_int (t mod CYCLE_LENGTH) > of_int CYCLE_LENGTH * DAY_RATIO)"

definition start_tick :: "env \<Rightarrow> rng \<Rightarrow> tick" where
  "start_tick e g =
     (let h = agents e;
          n = length (agents e)
      in \<lparr>heap = h, occupied = build_occupied h [0..<n] Map.empty,
          field = nutrients e, new_borns = [], dead_agents = [], events = [], rand = g\<rparr>)"

definition run_agents :: "env \<Rightarrow> rng \<Rightarrow> error + tick" where
  "run_agents e g =
     agents_loop (night_at (global_time e + 1)) [0..<length (agents e)] (start_tick e g)"

text \<open>The compaction of the population, the recycling, and the whole of \<open>update_agents\<close>.\<close>

definition finish_tick :: "env \<Rightarrow> tick \<Rightarrow> error + env \<times> event list \<times> rng" where
  "finish_tick e st =
     (let survivors = filter is_alive (take (length (agents e)) (heap st));
          population = survivors @ map (\<lambda>c. heap st ! c) (new_borns st)
      in case recycle (heap st) (dead_agents st) (field st) of
           Inl err \<Rightarrow> Inl err
         | Inr nut \<Rightarrow>
             Inr (\<lparr>nutrients = nut, agents = population,
                   global_time = global_time e + 1,
                   is_night = night_at (global_time e + 1)\<rparr>, events st, rand st))"

definition update_agents :: "env \<Rightarrow> rng \<Rightarrow> error + env \<times> event list \<times> rng" where
  "update_agents e g =
     (case run_agents e g of
        Inl err \<Rightarrow> Inl err
      | Inr st \<Rightarrow> finish_tick e st)"

section \<open>Scenarios\<close>

text \<open>Two sticky neighbours, as in the colony-sharing scenario.\<close>

definition sticky :: "int \<Rightarrow> real \<Rightarrow> real \<Rightarrow> agent" where
  "sticky ax adh e =
     \<lparr>ident = 0, x_of = ax, y_of = 0, energy = e, age = 0, generation = 1, is_alive = True,
      is_predator = False, offspring_count = 0,
      genes = \<lparr>metabolism = 1.0, repro_threshold = 60.0, sense_range = 1, size_gene = 1.0,
                photosynthesis_efficiency = 0.0, adhesion = adh\<rparr>\<rparr>"

definition colony_pair :: heap where
  "colony_pair = [sticky 0 0.6 30.0, sticky 1 0.9 10.0]"

definition colony_level :: heap where
  "colony_level = [sticky 0 0.6 10.5, sticky 1 0.9 10.0]"

text \<open>The single-peak field and a table of draws (any table does at spawn rate zero).\<close>

definition single_peak :: grid where
  "single_peak = (\<lambda>c. if c = (5, 5) then 10.0 else 0.0)"

definition no_draws :: "int \<times> int \<Rightarrow> nat" where
  "no_draws = (\<lambda>c. 0)"

text \<open>Two streams of raw draws: all zero, and all \<open>2 ^ 52\<close> (every fraction is 1/2).\<close>

definition rng_zero :: rng where "rng_zero = (\<lambda>n. 0)"

definition rng_half :: rng where "rng_half = (\<lambda>n. 4503599627370496)"

text \<open>The two sticky neighbours as a population on the single-peak field, at time 0.\<close>

definition pair_env :: env where
  "pair_env = \<lparr>nutrients = single_peak, agents = colony_pair, global_time = 0, is_night = False\<rparr>"

text \<open>The level pair inside a tick, with food on the diagonal cell \<open>(1, 1)\<close>.\<close>

definition corner_food :: grid where
  "corner_food = (\<lambda>c. if c = (1, 1) then 5.0 else 0.0)"

definition level_tick :: tick where
  "level_tick = \<lparr>heap = colony_level, occupied = [(0, 0) \<mapsto> 0, (1, 0) \<mapsto> 1],
     field = corner_food, new_borns = [], dead_agents = [], events = [], rand = rng_half\<rparr>"

text \<open>
  A night tick (time 300, so the tick runs at 301) with a predator next to its prey: the
  \<open>hunter\<close> on \<open>(0, 0)\<close>, the \<open>grazer\<close> on \<open>(1, 0)\<close>, food only on the grazer's cell.
  \<open>night_start\<close>, \<open>night_mid\<close> and \<open>night_end\<close> are the state of the tick before the
  hunter's turn, between the two turns and after the grazer's turn. The \<open>starver\<close> is
  the hunter with energy 1.0, alone on a field that is full everywhere. In the birth
  tick a \<open>parent\<close> stands on \<open>(1, 0)\<close> and acts before the hunter, with food on
  \<open>(1, 1)\<close>; the \<open>infant\<close> is the child it gets there. All energies, costs and gains
  of these ticks are binary fractions, so the floating-point run computes them exactly.
\<close>

definition hunter :: agent where
  "hunter =
     \<lparr>ident = 1, x_of = 0, y_of = 0, energy = 20.0, age = 0, generation = 1, is_alive = True,
      is_predator = True, offspring_count = 3,
      genes = \<lparr>metabolism = 1.0, repro_threshold = 60.0, sense_range = 1, size_gene = 3.0,
                photosynthesis_efficiency = 0.0, adhesion = 0.0\<rparr>\<rparr>"

definition grazer :: agent where
  "grazer =
     \<lparr>ident = 2, x_of = 1, y_of = 0, energy = 30.0, age = 0, generation = 1, is_alive = True,
      is_predator = False, offspring_count = 0,
      genes = \<lparr>metabolism = 0.5, repro_threshold = 60.0, sense_range = 1, size_gene = 1.0,
                photosynthesis_efficiency = 0.0, adhesion = 0.0\<rparr>\<rparr>"

definition bait :: grid where
  "bait = (\<lambda>c. if c = (1, 0) then 5.0 else 0.0)"

definition night_env :: env where
  "night_env = \<lparr>nutrients = bait, agents = [hunter, grazer], global_time = 300, is_night = False\<rparr>"

definition night_start :: tick where
  "night_start = \<lparr>heap = [hunter, grazer], occupied = [(0, 0) \<mapsto> 0, (1, 0) \<mapsto> 1],
     field = bait, new_borns = [], dead_agents = [], events = [], rand = rng_half\<rparr>"

definition night_mid :: tick where
  "night_mid = \<lparr>heap = [hunter\<lparr>x_of := 1, y_of := 0, energy := 47, age := 1\<rparr>,
                         grazer\<lparr>is_alive := False\<rparr>],
     occupied = [(1, 0) \<mapsto> 0],
     field = bait, new_borns = [], dead_agents = [], events = [Eat 0 0], rand = rng_half\<rparr>"

definition night_end :: tick where
  "night_end = night_mid\<lparr>heap := [hunter\<lparr>x_of := 1, y_of := 0, energy := 47, age := 1\<rparr>,
                         grazer\<lparr>energy := 31.25, age := 1, is_alive := False\<rparr>],
     field := bait((1, 0) := 3)\<rparr>"

definition starver :: agent where
  "starver = hunter\<lparr>energy := 1.0\<rparr>"

definition full_field :: grid where "full_field = (\<lambda>c. 10.0)"

definition famine_env :: env where
  "famine_env = \<lparr>nutrients = full_field, agents = [starver], global_time = 300, is_night = False\<rparr>"

definition famine_start :: tick where
  "famine_start = \<lparr>heap = [starver], occupied = [(0, 0) \<mapsto> 0],
     field = full_field, new_borns = [], dead_agents = [], events = [], rand = rng_half\<rparr>"

definition famine_end :: tick where
  "famine_end = famine_start\<lparr>heap := [starver\<lparr>energy := - 0.5, age := 1, is_alive := False\<rparr>],
     dead_agents := [0]\<rparr>"

definition parent :: agent where
  "parent =
     \<lparr>ident = 3, x_of = 1, y_of = 0, energy = 30.75, age = 0, generation = 1, is_alive = True,
      is_predator = False, offspring_count = 0,
      genes = \<lparr>metabolism = 0.5, repro_threshold = 10.0, sense_range = 1, size_gene = 1.0,
                photosynthesis_efficiency = 0.0, adhesion = 0.0\<rparr>\<rparr>"

definition infant :: agent where
  "infant = fst (Agent 1 1 (genes parent) 15.0 2 rng_half)"

definition birth_env :: env where
  "birth_env = \<lparr>nutrients = corner_food, agents = [parent, hunter], global_time = 300,
     is_night = False\<rparr>"

definition birth_start :: tick where
  "birth_start = \<lparr>heap = [parent, hunter], occupied = [(1, 0) \<mapsto> 0, (0, 0) \<mapsto> 1],
     field = corner_food, new_borns = [], dead_agents = [], events = [], rand = rng_half\<rparr>"

definition birth_mid :: tick where
  "birth_mid = \<lparr>heap = [parent\<lparr>energy := 15.0, age := 1, offspring_count := 1\<rparr>, hunter, infant],
     occupied = [(1, 0) \<mapsto> 0, (0, 0) \<mapsto> 1, (1, 1) \<mapsto> 2],
     field = corner_food, new_borns = [2], dead_agents = [], events = [Spawn 1 0 1 1],
     rand = rng_half\<rparr>"

definition birth_end :: tick where
  "birth_end = \<lparr>heap = [parent\<lparr>energy := 15.0, age := 1, offspring_count := 1\<rparr>,
                       hunter\<lparr>x_of := 1, y_of := 1, energy := 35, age := 1\<rparr>,
                       infant\<lparr>is_alive := False\<rparr>],
     occupied = [(1, 0) \<mapsto> 0, (1, 1) \<mapsto> 1],
     field = corner_food, new_borns = [2], dead_agents = [],
     events = [Spawn 1 0 1 1, Eat 0 0], rand = rng_half\<rparr>"

text \<open>A genome inside its bounds.\<close>

definition sample_genes :: genes where
  "sample_genes = \<lparr>metabolism = 1.0, repro_threshold = 60.0, sense_range = 3, size_gene = 1.0,
     photosynthesis_efficiency = 0.0, adhesion = 0.6\<rparr>"

section \<open>Invariants of the tick\<close>

text \<open>
  Predicates used to state what a tick preserves: two stores hold their agents on the same
  cells; every agent of the store is on the grid; the reference lists point into the store.
\<close>

definition same_cells :: "heap \<Rightarrow> heap \<Rightarrow> bool" where
  "same_cells h h' \<longleftrightarrow> map (\<lambda>a. (x_of a, y_of a)) h' = map (\<lambda>a. (x_of a, y_of a)) h"

definition heap_in_grid :: "tick \<Rightarrow> bool" where
  "heap_in_grid st \<longleftrightarrow> (\<forall>a \<in> set (heap st). in_grid (x_of a, y_of a))"

definition refs_ok :: "tick \<Rightarrow> bool" where
  "refs_ok st \<longleftrightarrow>
     (\<forall>r \<in> set (new_borns st). r < length (heap st)) \<and>
     (\<forall>r \<in> set (dead_agents st). r < length (heap st))"

definition tick_inv :: "tick \<Rightarrow> bool" where
  "tick_inv st \<longleftrightarrow> heap_in_grid st \<and> refs_ok st"

definition agents_in_grid :: "agent list \<Rightarrow> bool" where
  "agents_in_grid as \<longleftrightarrow> (\<forall>a \<in> set as. in_grid (x_of a, y_of a))"

text \<open>The four candidate cells of the reproduction step, in the order the code lists them.\<close>

definition axis_neighbors :: "agent \<Rightarrow> (int \<times> int) list" where
  "axis_neighbors a =
     [(x_of a + 1, y_of a), (x_of a - 1, y_of a), (x_of a, y_of a + 1), (x_of a, y_of a - 1)]"

(*PROPERTIES*)
section \<open>Properties\<close>

subsection \<open>Colony sharing\<close>

lemma sticky_sel [simp]:
  "energy (sticky ax adh e) = e" "adhesion (genes (sticky ax adh e)) = adh"
  "x_of (sticky ax adh e) = ax" "y_of (sticky ax adh e) = 0"
  "is_predator (sticky ax adh e) = False"
  by (simp_all add: sticky_def)

text \<open>
  C9. Two distinct agents with adhesion 0.6 and 0.9 and energies 30.0 and 10.0: one call of
  \<open>handle_colony\<close>, from either side, reports the caller attached and moves exactly
  \<open>COLONY_SHARING_RATE * 0.5 * |30.0 - 10.0|\<close> from the richer to the poorer agent, so
  the sum of the two energies is unchanged.
\<close>

theorem colony_sharing_scenario:
  assumes "i \<noteq> j" "i < length h" "j < length h"
    "adhesion (genes (h ! i)) = 0.6" "adhesion (genes (h ! j)) = 0.9"
    "energy (h ! i) = 30.0" "energy (h ! j) = 10.0"
  shows "snd (handle_colony h i [j]) \<and>
         energy (fst (handle_colony h i [j]) ! i) =
           30.0 - COLONY_SHARING_RATE * 0.5 * \<bar>30.0 - 10.0\<bar> \<and>
         energy (fst (handle_colony h i [j]) ! j) =
           10.0 + COLONY_SHARING_RATE * 0.5 * \<bar>30.0 - 10.0\<bar> \<and>
         snd (handle_colony h j [i]) \<and>
         energy (fst (handle_colony h j [i]) ! i) =
           30.0 - COLONY_SHARING_RATE * 0.5 * \<bar>30.0 - 10.0\<bar> \<and>
         energy (fst (handle_colony h j [i]) ! j) =
           10.0 + COLONY_SHARING_RATE * 0.5 * \<bar>30.0 - 10.0\<bar>"
  using assms by (simp add: handle_colony_def COLONY_SHARING_RATE_def Let_def)

theorem colony_sharing_scenario_witness:
  "energy (fst (handle_colony colony_pair 0 [1]) ! 0) = 25 \<and>
   energy (fst (handle_colony colony_pair 0 [1]) ! 1) = 15 \<and>
   energy (fst (handle_colony colony_pair 1 [0]) ! 0) = 25 \<and>
   energy (fst (handle_colony colony_pair 1 [0]) ! 1) = 15"
  using colony_sharing_scenario [of 0 1 colony_pair]
  by (simp add: colony_pair_def COLONY_SHARING_RATE_def)

subsection \<open>Rounding to single precision\<close>

lemma pow2_powr: "pow2 e = 2 powr (of_int e)"
proof (cases "0 \<le> e")
  case True
  then have "of_int e = real (nat e)" by simp
  then have "2 powr (of_int e) = (2::real) ^ nat e"
    by (simp only: powr_realpow zero_less_numeral)
  then show ?thesis using True by (simp add: pow2_def)
next
  case False
  then have "of_int e = - real (nat (- e))" by simp
  then have "2 powr (of_int e) = 1 / (2::real) ^ nat (- e)"
    by (simp only: powr_minus powr_realpow zero_less_numeral) (simp add: field_simps)
  then show ?thesis using False by (simp add: pow2_def)
qed

lemma pow2_pos: "0 < pow2 e"
  by (simp add: pow2_powr)

lemma pow2_mono: "e \<le> e' \<Longrightarrow> pow2 e \<le> pow2 e'"
  by (simp add: pow2_powr)

lemma expo_up_eq:
  "e0 \<le> e \<Longrightarrow> nat (e - e0) \<le> n \<Longrightarrow> pow2 e \<le> x \<or> e = e0 \<Longrightarrow> x < pow2 (e + 1) \<Longrightarrow>
     expo_up n e0 x = e"
proof (induction n arbitrary: e0)
  case 0
  then show ?case by simp
next
  case (Suc n)
  show ?case
  proof (cases "e0 = e")
    case True
    then show ?thesis using Suc.prems by simp
  next
    case False
    then have lt: "e0 + 1 \<le> e" using Suc.prems(1) by simp
    then have "pow2 (e0 + 1) \<le> pow2 e" by (rule pow2_mono)
    moreover have "pow2 e \<le> x" using Suc.prems(3) False by simp
    ultimately have "pow2 (e0 + 1) \<le> x" by simp
    moreover have "expo_up n (e0 + 1) x = e"
      using lt Suc.prems \<open>pow2 e \<le> x\<close> by (intro Suc.IH) auto
    ultimately show ?thesis by simp
  qed
qed

lemma expo_eq:
  "- 126 \<le> e \<Longrightarrow> e \<le> 127 \<Longrightarrow> pow2 e \<le> \<bar>x\<bar> \<Longrightarrow> \<bar>x\<bar> < pow2 (e + 1) \<Longrightarrow> expo x = e"
  unfolding expo_def by (rule expo_up_eq) auto

lemma f32_eval:
  "- 126 \<le> e \<Longrightarrow> e \<le> 127 \<Longrightarrow> pow2 e \<le> \<bar>x\<bar> \<Longrightarrow> \<bar>x\<bar> < pow2 (e + 1) \<Longrightarrow>
     f32 x = of_int (py_round (x / pow2 (e - 23))) * pow2 (e - 23)"
  by (simp add: f32_def expo_eq Let_def)

lemma py_round_zero [simp]: "py_round 0 = 0"
  by (simp add: py_round_def)

lemma f32_zero [simp]: "f32 0 = 0"
  by (simp add: f32_def)

lemma py_round_nonneg: "0 \<le> v \<Longrightarrow> 0 \<le> py_round v"
  by (simp add: py_round_def Let_def)

lemma f32_nonneg: "0 \<le> x \<Longrightarrow> 0 \<le> f32 x"
  using pow2_pos [of "expo x - 23"] by (simp add: f32_def Let_def py_round_nonneg)

lemma f32_06: "f32 (3 / 5) = 5033165 / 8388608"
  using f32_eval [of "- 1" "3 / 5"] by (simp add: pow2_def py_round_def Let_def)

lemma f32_01: "f32 (1 / 10) = 13421773 / 134217728"
  using f32_eval [of "- 4" "1 / 10"] by (simp add: pow2_def py_round_def Let_def)

lemma f32_0995: "f32 (199 / 200) = 8346665 / 8388608"
  using f32_eval [of "- 1" "199 / 200"] by (simp add: pow2_def py_round_def Let_def)

lemma f32_six: "f32 (25165825 / 4194304) = 6"
  using f32_eval [of 2 "25165825 / 4194304"] by (simp add: pow2_def py_round_def Let_def)

lemma f32_6: "f32 6 = 6"
  using f32_eval [of 2 6] by (simp add: pow2_def py_round_def Let_def)

lemma f32_10: "f32 10 = 10"
  using f32_eval [of 3 10] by (simp add: pow2_def py_round_def Let_def)

lemma f32_1: "f32 1 = 1"
  using f32_eval [of 0 1] by (simp add: pow2_def py_round_def Let_def)

lemma f32_one: "f32 (67108865 / 67108864) = 1"
  using f32_eval [of 0 "67108865 / 67108864"] by (simp add: pow2_def py_round_def Let_def)

lemma f32_centre: "f32 (25039995 / 4194304) = 6259999 / 1048576"
  using f32_eval [of 2 "25039995 / 4194304"] by (simp add: pow2_def py_round_def Let_def)

lemma f32_idem: "f32 (8346665 / 8388608) = 8346665 / 8388608"
  using f32_eval [of "- 1" "8346665 / 8388608"] by (simp add: pow2_def py_round_def Let_def)

subsection \<open>Nutrient field\<close>

lemma np_random_nonneg: "\<not> np_random u c < 0"
  by (simp add: np_random_def)

lemma nutrient_step_range:
  "0 \<le> nutrient_step s k d u nut c \<and> nutrient_step s k d u nut c \<le> MAX_NUTRIENT"
  by (simp add: nutrient_step_def np_clip_def MAX_NUTRIENT_def)

lemma single_peak_centre:
  "nutrient_step 0 (1 / 10) (199 / 200) u single_peak (5, 5) = 6259999 / 1048576"
  by (simp add: nutrient_step_def np_clip_def decay_def diffuse_def regenerate_def
      np_random_nonneg single_peak_def GRID_WIDTH_def GRID_HEIGHT_def MAX_NUTRIENT_def
      f32_06 f32_01 f32_0995 f32_six f32_6 f32_centre)

lemma single_peak_neighbour:
  assumes "c = (4, 5) \<or> c = (6, 5) \<or> c = (5, 4) \<or> c = (5, 6)"
  shows "nutrient_step 0 (1 / 10) (199 / 200) u single_peak c = 8346665 / 8388608"
  using assms
  by (auto simp add: nutrient_step_def np_clip_def decay_def diffuse_def regenerate_def
      np_random_nonneg single_peak_def GRID_WIDTH_def GRID_HEIGHT_def MAX_NUTRIENT_def
      f32_06 f32_01 f32_0995 f32_10 f32_one f32_1 f32_idem)

text \<open>
  C8, as stated: after one update of the single-peak field with spawn rate 0, diffusion 0.1
  and decay 0.995 the neighbour \<open>(4, 5)\<close> of the peak has not gained \<open>10.0 * 0.1\<close>: the
  decay is applied to it as well, and it holds the binary32 number next to 0.995.
\<close>

theorem single_peak_neighbour_counterexample:
  "nutrient_step 0 0.1 0.995 no_draws single_peak (4, 5) - single_peak (4, 5) \<noteq> 10.0 * 0.1"
  by (simp add: single_peak_neighbour [of "(4, 5)"]) (simp add: single_peak_def)

text \<open>
  C8, amended: whatever the table of draws, the four neighbours of the peak each end at
  the binary32 number nearest to \<open>10.0 * 0.1 * 0.995\<close> (they started at 0), which is
  \<open>8346665 / 2 ^ 23 = 0.9950000047683716\<close>, and the centre ends at the binary32 number
  \<open>6259999 / 2 ^ 20 = 5.970000267028809\<close>, which is \<open>10.0 * (1 - 0.4) * 0.995\<close> up to
  the rounding of the three in-place operations: it lies within \<open>2 ^ -21\<close> of it, one
  unit in the last place above the binary32 number nearest to 5.97.
\<close>

theorem single_peak_diffusion:
  "nutrient_step 0 0.1 0.995 u single_peak (5, 5) = 6259999 / 2 ^ 20 \<and>
   \<bar>nutrient_step 0 0.1 0.995 u single_peak (5, 5) - 10.0 * (1 - 0.4) * 0.995\<bar> \<le> 1 / 2 ^ 21 \<and>
   nutrient_step 0 0.1 0.995 u single_peak (5, 5) \<noteq> f32 (10.0 * (1 - 0.4) * 0.995) \<and>
   nutrient_step 0 0.1 0.995 u single_peak (4, 5) = 8346665 / 2 ^ 23 \<and>
   nutrient_step 0 0.1 0.995 u single_peak (6, 5) = 8346665 / 2 ^ 23 \<and>
   nutrient_step 0 0.1 0.995 u single_peak (5, 4) = 8346665 / 2 ^ 23 \<and>
   nutrient_step 0 0.1 0.995 u single_peak (5, 6) = 8346665 / 2 ^ 23 \<and>
   f32 (10.0 * 0.1 * 0.995) = 8346665 / 2 ^ 23"
  using f32_eval [of 2 "597 / 100"]
  by (simp add: single_peak_centre single_peak_neighbour f32_0995)
     (simp add: pow2_def py_round_def Let_def)

subsection \<open>Mutation\<close>

lemma random_random_range: "0 \<le> fst (random_random g) \<and> fst (random_random g) < 1"
proof -
  have "g 0 mod 2 ^ 53 < (2::nat) ^ 53" by simp
  then have "real (g 0 mod 2 ^ 53) < 2 ^ 53"
    by (metis of_nat_less_iff of_nat_numeral of_nat_power)
  then show ?thesis by (simp add: random_random_def)
qed

lemma py_round_nearest: "\<bar>of_int (py_round v) - v\<bar> \<le> 1 / 2"
proof -
  have "of_int \<lfloor>v\<rfloor> \<le> v" "v < of_int \<lfloor>v\<rfloor> + 1" by linarith+
  then show ?thesis by (auto simp add: py_round_def Let_def)
qed

lemma mutate_real_char:
  "fst (mutate_real mn mx v g) =
     (if fst (random_random g) < MUTATION_RATE
      then max mn (min mx (v + v * fst (random_uniform (- MUTATION_STRENGTH) MUTATION_STRENGTH
                                     (snd (random_random g)))))
      else v)"
  by (simp add: mutate_real_def Let_def)

lemma mutate_int_char:
  "fst (mutate_int mn mx v g) =
     (if fst (random_random g) < MUTATION_RATE
      then max mn (min mx (py_round (of_int v + of_int v *
             fst (random_uniform (- MUTATION_STRENGTH) MUTATION_STRENGTH (snd (random_random g))))))
      else v)"
  by (simp add: mutate_int_def Let_def)

lemma mutate_real_bounds:
  "mn \<le> mx \<Longrightarrow> mn \<le> v \<Longrightarrow> v \<le> mx \<Longrightarrow>
     mn \<le> fst (mutate_real mn mx v g) \<and> fst (mutate_real mn mx v g) \<le> mx"
  by (simp add: mutate_real_char)

lemma mutate_int_bounds:
  "mn \<le> mx \<Longrightarrow> mn \<le> v \<Longrightarrow> v \<le> mx \<Longrightarrow>
     mn \<le> fst (mutate_int mn mx v g) \<and> fst (mutate_int mn mx v g) \<le> mx"
  by (simp add: mutate_int_char)

lemma mutate_genes_fields:
  "metabolism (fst (mutate_genes gs g0)) = fst (mutate_real 0.1 2.0 (metabolism gs) g0)"
  "\<exists>g. repro_threshold (fst (mutate_genes gs g0)) = fst (mutate_real 10.0 60.0 (repro_threshold gs) g)"
  "\<exists>g. sense_range (fst (mutate_genes gs g0)) = fst (mutate_int 1 5 (sense_range gs) g)"
  "\<exists>g. size_gene (fst (mutate_genes gs g0)) = fst (mutate_real 1.0 3.0 (size_gene gs) g)"
  "\<exists>g. photosynthesis_efficiency (fst (mutate_genes gs g0)) =
         fst (mutate_real 0.0 1.0 (photosynthesis_efficiency gs) g)"
  "\<exists>g. adhesion (fst (mutate_genes gs g0)) = fst (mutate_real 0.0 1.0 (adhesion gs) g)"
  by (auto simp add: mutate_genes_def Let_def split: prod.splits) (metis fst_conv)+

lemma mutate_genes_in_bounds:
  assumes "genes_in_bounds gs"
  shows "genes_in_bounds (fst (mutate_genes gs g))"
proof -
  note f = mutate_genes_fields [of gs g]
  have 1: "0.1 \<le> metabolism (fst (mutate_genes gs g)) \<and> metabolism (fst (mutate_genes gs g)) \<le> 2.0"
    using assms mutate_real_bounds [of "0.1" "2.0" "metabolism gs" g] f(1)
    by (simp add: genes_in_bounds_def)
  have 2: "10.0 \<le> repro_threshold (fst (mutate_genes gs g)) \<and>
           repro_threshold (fst (mutate_genes gs g)) \<le> 60.0"
    using assms mutate_real_bounds [of "10.0" "60.0" "repro_threshold gs"] f(2)
    by (auto simp add: genes_in_bounds_def)
  have 3: "1 \<le> sense_range (fst (mutate_genes gs g)) \<and> sense_range (fst (mutate_genes gs g)) \<le> 5"
    using assms mutate_int_bounds [of 1 5 "sense_range gs"] f(3)
    by (auto simp add: genes_in_bounds_def)
  have 4: "1.0 \<le> size_gene (fst (mutate_genes gs g)) \<and> size_gene (fst (mutate_genes gs g)) \<le> 3.0"
    using assms mutate_real_bounds [of "1.0" "3.0" "size_gene gs"] f(4)
    by (auto simp add: genes_in_bounds_def)
  have 5: "0.0 \<le> photosynthesis_efficiency (fst (mutate_genes gs g)) \<and>
           photosynthesis_efficiency (fst (mutate_genes gs g)) \<le> 1.0"
    using assms mutate_real_bounds [of "0.0" "1.0" "photosynthesis_efficiency gs"] f(5)
    by (auto simp add: genes_in_bounds_def)
  have 6: "0.0 \<le> adhesion (fst (mutate_genes gs g)) \<and> adhesion (fst (mutate_genes gs g)) \<le> 1.0"
    using assms mutate_real_bounds [of "0.0" "1.0" "adhesion gs"] f(6)
    by (auto simp add: genes_in_bounds_def)
  show ?thesis unfolding genes_in_bounds_def using 1 2 3 4 5 6 by blast
qed

lemma mutate_genes_traits:
  "metabolism (fst (mutate_genes gs g)) =
     (if selected 0 gs g then max 0.1 (min 2.0 (perturbed 0 (metabolism gs) gs g))
      else metabolism gs)"
  "repro_threshold (fst (mutate_genes gs g)) =
     (if selected 1 gs g then max 10.0 (min 60.0 (perturbed 1 (repro_threshold gs) gs g))
      else repro_threshold gs)"
  "sense_range (fst (mutate_genes gs g)) =
     (if selected 2 gs g
      then max 1 (min 5 (py_round (perturbed 2 (of_int (sense_range gs)) gs g)))
      else sense_range gs)"
  "size_gene (fst (mutate_genes gs g)) =
     (if selected 3 gs g then max 1.0 (min 3.0 (perturbed 3 (size_gene gs) gs g))
      else size_gene gs)"
  "photosynthesis_efficiency (fst (mutate_genes gs g)) =
     (if selected 4 gs g
      then max 0.0 (min 1.0 (perturbed 4 (photosynthesis_efficiency gs) gs g))
      else photosynthesis_efficiency gs)"
  "adhesion (fst (mutate_genes gs g)) =
     (if selected 5 gs g then max 0.0 (min 1.0 (perturbed 5 (adhesion gs) gs g))
      else adhesion gs)"
  by (simp_all add: mutate_genes_def selected_def perturbed_def rng_at_def Let_def
      split_beta mutate_real_char mutate_int_char)

lemma rng_zero_random [simp]: "random_random rng_zero = (0, rng_zero)"
  by (simp add: random_random_def rng_tail_def rng_zero_def)

lemma rng_zero_uniform [simp]: "random_uniform a b rng_zero = (a, rng_zero)"
  by (simp add: random_uniform_def)

lemma rng_half_tail [simp]: "rng_tail rng_half = rng_half"
  by (simp add: rng_tail_def rng_half_def)

lemma rng_half_random [simp]: "random_random rng_half = (1 / 2, rng_half)"
  using rng_half_tail by (simp add: random_random_def) (simp add: rng_half_def)

lemma rng_at_zero [simp]: "rng_at k gs rng_zero = rng_zero" if "k < 6"
proof -
  have "k = 0 \<or> k = 1 \<or> k = 2 \<or> k = 3 \<or> k = 4 \<or> k = 5" using that by arith
  then show ?thesis
    by (auto simp add: rng_at_def mutate_real_def mutate_int_def Let_def)
qed

lemma rng_at_half [simp]: "rng_at k gs rng_half = rng_half" if "k < 6"
proof -
  have "k = 0 \<or> k = 1 \<or> k = 2 \<or> k = 3 \<or> k = 4 \<or> k = 5" using that by arith
  then show ?thesis
    by (auto simp add: rng_at_def mutate_real_def mutate_int_def Let_def MUTATION_RATE_def)
qed

text \<open>
  C4. A genome within \<open>GENE_BOUNDS\<close> is mutated by \<open>mutate_genes\<close> into a genome
  within \<open>GENE_BOUNDS\<close>, whatever the random draws. Trait by trait, the genome returned
  holds the parent's value when the trait is not selected, and when it is selected the
  perturbed value clamped to the trait's bounds; for \<open>sense_range\<close>, an integer by its
  type, the perturbed value is first rounded by \<open>py_round\<close>, to an integer at most one
  half away from it, and the rounded value is then clamped.
\<close>

theorem mutation_respects_bounds:
  assumes "genes_in_bounds gs"
  shows "genes_in_bounds (fst (mutate_genes gs g)) \<and>
         metabolism (fst (mutate_genes gs g)) =
           (if selected 0 gs g then max 0.1 (min 2.0 (perturbed 0 (metabolism gs) gs g))
            else metabolism gs) \<and>
         repro_threshold (fst (mutate_genes gs g)) =
           (if selected 1 gs g then max 10.0 (min 60.0 (perturbed 1 (repro_threshold gs) gs g))
            else repro_threshold gs) \<and>
         sense_range (fst (mutate_genes gs g)) =
           (if selected 2 gs g
            then max 1 (min 5 (py_round (perturbed 2 (of_int (sense_range gs)) gs g)))
            else sense_range gs) \<and>
         \<bar>of_int (py_round (perturbed 2 (of_int (sense_range gs)) gs g)) -
            perturbed 2 (of_int (sense_range gs)) gs g\<bar> \<le> 1 / 2 \<and>
         size_gene (fst (mutate_genes gs g)) =
           (if selected 3 gs g then max 1.0 (min 3.0 (perturbed 3 (size_gene gs) gs g))
            else size_gene gs) \<and>
         photosynthesis_efficiency (fst (mutate_genes gs g)) =
           (if selected 4 gs g
            then max 0.0 (min 1.0 (perturbed 4 (photosynthesis_efficiency gs) gs g))
            else photosynthesis_efficiency gs) \<and>
         adhesion (fst (mutate_genes gs g)) =
           (if selected 5 gs g then max 0.0 (min 1.0 (perturbed 5 (adhesion gs) gs g))
            else adhesion gs)"
  using mutate_genes_in_bounds [OF assms, of g] mutate_genes_traits [of gs g]
    py_round_nearest [of "perturbed 2 (of_int (sense_range gs)) gs g"]
  by (intro conjI) assumption+

theorem mutation_respects_bounds_witness:
  "genes_in_bounds sample_genes \<and>
   genes_in_bounds (fst (mutate_genes sample_genes rng_zero)) \<and>
   selected 0 sample_genes rng_zero \<and> metabolism (fst (mutate_genes sample_genes rng_zero)) = 0.9 \<and>
   selected 2 sample_genes rng_zero \<and> sense_range (fst (mutate_genes sample_genes rng_zero)) = 3 \<and>
   selected 3 sample_genes rng_zero \<and> size_gene (fst (mutate_genes sample_genes rng_zero)) = 1.0 \<and>
   \<not> selected 5 sample_genes rng_half \<and>
   adhesion (fst (mutate_genes sample_genes rng_half)) = adhesion sample_genes"
  using mutation_respects_bounds [of sample_genes rng_zero]
    mutation_respects_bounds [of sample_genes rng_half]
  by (simp add: genes_in_bounds_def selected_def perturbed_def MUTATION_RATE_def
      MUTATION_STRENGTH_def py_round_def sample_genes_def)

subsection \<open>Coordinates stay on the grid\<close>

lemma argmax_from_bound:
  "bi < i \<Longrightarrow> argmax_from bi bv i vs < i + length vs"
proof (induction vs arbitrary: bi bv i)
  case Nil
  then show ?case by simp
next
  case (Cons v vs)
  have "argmax_from i v (Suc i) vs < Suc i + length vs"
    by (rule Cons.IH) simp
  moreover have "argmax_from bi bv (Suc i) vs < Suc i + length vs"
    by (rule Cons.IH) (use Cons.prems in simp)
  ultimately show ?case by simp
qed

lemma np_argmax_bound: "vs \<noteq> [] \<Longrightarrow> np_argmax vs < length vs"
  using argmax_from_bound [of 0 1 "hd vs" "tl vs"] by (simp add: np_argmax_def)

lemma length_concat_rect:
  "length (concat (map (\<lambda>i. map (f i) cols) rows)) = length rows * length cols"
  by (induction rows) auto

lemma np_slice_length:
  "0 \<le> lo \<Longrightarrow> hi \<le> n \<Longrightarrow> 0 < length (np_slice lo hi n) \<Longrightarrow> 0 \<le> n \<Longrightarrow>
     lo + int (length (np_slice lo hi n)) \<le> n"
  by (auto simp add: np_slice_def Let_def split: if_splits)

lemma div_lt_rows: "(k::nat) < m * n \<Longrightarrow> k div n < m"
  by (simp add: less_mult_imp_div_less)

lemma scan_patch_in_grid:
  assumes "scan_patch nut GRID_WIDTH GRID_HEIGHT a = Some (bx, by, v)"
  shows "in_grid (bx, by)"
proof -
  define r where "r = sense_range (genes a)"
  define x_min where "x_min = max 0 (x_of a - r)"
  define x_max where "x_max = min GRID_WIDTH (x_of a + r + 1)"
  define y_min where "y_min = max 0 (y_of a - r)"
  define y_max where "y_max = min GRID_HEIGHT (y_of a + r + 1)"
  define rows where "rows = np_slice x_min x_max GRID_WIDTH"
  define cols where "cols = np_slice y_min y_max GRID_HEIGHT"
  define flat where "flat = concat (map (\<lambda>i. map (\<lambda>j. nut (i, j)) cols) rows)"
  define idx where "idx = np_argmax flat"
  have len: "length flat = length rows * length cols"
    unfolding flat_def by (rule length_concat_rect)
  from assms have pos: "length rows * length cols > 0"
    and bx: "bx = x_min + int (idx div length cols)"
    and "by": "by = y_min + int (idx mod length cols)"
    unfolding scan_patch_def Let_def r_def x_min_def x_max_def y_min_def y_max_def
      rows_def cols_def flat_def idx_def
    by (auto split: if_splits)
  from pos have rpos: "0 < length rows" and cpos: "0 < length cols" by auto
  from pos len have "flat \<noteq> []" by auto
  then have "idx < length rows * length cols"
    using np_argmax_bound [of flat] len by (simp add: idx_def)
  then have dx: "idx div length cols < length rows"
    by (rule div_lt_rows)
  have mx: "idx mod length cols < length cols" using cpos by simp
  have "x_min + int (length rows) \<le> GRID_WIDTH"
    unfolding rows_def using rpos
    by (intro np_slice_length) (simp_all add: x_min_def x_max_def rows_def GRID_WIDTH_def)
  moreover have "y_min + int (length cols) \<le> GRID_HEIGHT"
    unfolding cols_def using cpos
    by (intro np_slice_length) (simp_all add: y_min_def y_max_def cols_def GRID_HEIGHT_def)
  moreover have "0 \<le> x_min" "0 \<le> y_min" by (simp_all add: x_min_def y_min_def)
  ultimately show ?thesis using dx mx bx "by" by (simp add: in_grid_def)
qed

lemma sgn_step:
  "0 \<le> (p::int) \<Longrightarrow> p < n \<Longrightarrow> 0 \<le> b \<Longrightarrow> b < n \<Longrightarrow> 0 \<le> p + sgn (b - p) \<and> p + sgn (b - p) < n"
  by (auto simp add: sgn_if)

lemma seek_move_in_grid:
  assumes "in_grid (x_of a, y_of a)"
  shows "in_grid (fst (snd (seek_move nut GRID_WIDTH GRID_HEIGHT att a g)))"
proof (cases "scan_patch nut GRID_WIDTH GRID_HEIGHT a")
  case None
  then show ?thesis using assms
    by (simp add: seek_move_def Let_def in_grid_def)
next
  case (Some b)
  obtain bx "by" v where b: "b = (bx, by, v)" by (cases b) auto
  from Some b have "in_grid (bx, by)" using scan_patch_in_grid by simp
  then show ?thesis using assms Some b
      sgn_step [of "x_of a" GRID_WIDTH bx] sgn_step [of "y_of a" GRID_HEIGHT "by"]
    by (simp add: seek_move_def Let_def in_grid_def)
qed

lemma seek_move_pos:
  "x_of (fst (seek_move nut w hh att a g)) = x_of a"
  "y_of (fst (seek_move nut w hh att a g)) = y_of a"
  by (simp_all add: seek_move_def Let_def)

lemma sense_and_move_pos:
  "x_of (fst (sense_and_move nut w hh night att a g)) = x_of a"
  "y_of (fst (sense_and_move nut w hh night att a g)) = y_of a"
  by (simp_all add: sense_and_move_def Let_def seek_move_pos)

lemma sense_and_move_in_grid:
  assumes "in_grid (x_of a, y_of a)"
  shows "in_grid (fst (snd (sense_and_move nut GRID_WIDTH GRID_HEIGHT night att a g)))"
  using assms seek_move_in_grid [of "a\<lparr>energy := e\<rparr>" for e]
  by (simp add: sense_and_move_def Let_def)

lemma same_cells_refl [simp]: "same_cells h h"
  by (simp add: same_cells_def)

lemma same_cells_trans: "same_cells h h1 \<Longrightarrow> same_cells h1 h2 \<Longrightarrow> same_cells h h2"
  by (simp add: same_cells_def)

lemma same_cells_length: "same_cells h h' \<Longrightarrow> length h' = length h"
  unfolding same_cells_def by (rule map_eq_imp_length_eq)

lemma same_cells_update:
  assumes "x_of a = x_of (h ! r)" "y_of a = y_of (h ! r)"
  shows "same_cells h (h[r := a])"
proof -
  have "(map (\<lambda>a. (x_of a, y_of a)) h)[r := (x_of a, y_of a)] = map (\<lambda>a. (x_of a, y_of a)) h"
  proof (cases "r < length h")
    case True
    then show ?thesis using assms by (simp add: list_update_same_conv)
  next
    case False
    then show ?thesis by (intro list_update_beyond) simp
  qed
  then show ?thesis by (simp add: same_cells_def map_update)
qed

lemma same_cells_in_grid:
  assumes "same_cells h h'" "\<forall>a \<in> set h. in_grid (x_of a, y_of a)"
  shows "\<forall>a \<in> set h'. in_grid (x_of a, y_of a)"
proof
  fix a assume "a \<in> set h'"
  then have "(x_of a, y_of a) \<in> set (map (\<lambda>a. (x_of a, y_of a)) h')" by force
  then have "(x_of a, y_of a) \<in> set (map (\<lambda>a. (x_of a, y_of a)) h)"
    using assms(1) by (simp only: same_cells_def)
  then obtain b where "b \<in> set h" "(x_of a, y_of a) = (x_of b, y_of b)" by auto
  then show "in_grid (x_of a, y_of a)" using assms(2) by metis
qed

lemma in_grid_np_valid: "in_grid (i, j) \<Longrightarrow> np_valid i j"
  by (simp add: in_grid_def np_valid_def GRID_WIDTH_def GRID_HEIGHT_def)

lemma in_grid_np_norm: "in_grid (i, j) \<Longrightarrow> np_norm i j = (i, j)"
  by (simp add: in_grid_def np_norm_def)

lemma np_valid_norm_in_grid: "np_valid i j \<Longrightarrow> in_grid (np_norm i j)"
  by (simp add: in_grid_def np_valid_def np_norm_def GRID_WIDTH_def GRID_HEIGHT_def)

lemma colony_loop_cells: "same_cells h (fst (colony_loop h s ns att))"
proof (induction ns arbitrary: h att)
  case Nil
  then show ?case by simp
next
  case (Cons other rest)
  define t where "t = (energy (h ! s) - energy (h ! other)) * COLONY_SHARING_RATE * 0.5"
  define h1 where "h1 = h[s := (h ! s)\<lparr>energy := energy (h ! s) - t\<rparr>]"
  define h2 where "h2 = h1[other := (h1 ! other)\<lparr>energy := energy (h1 ! other) + t\<rparr>]"
  have "same_cells h h1" unfolding h1_def by (rule same_cells_update) simp_all
  moreover have "same_cells h1 h2" unfolding h2_def by (rule same_cells_update) simp_all
  ultimately have 12: "same_cells h h2" by (rule same_cells_trans)
  have a: "same_cells h (fst (colony_loop h2 s rest True))"
    using 12 Cons.IH by (rule same_cells_trans)
  have b: "same_cells h (fst (colony_loop h s rest b))" for b by (rule Cons.IH)
  show ?case
    using a b unfolding h2_def h1_def t_def by (simp add: Let_def)
qed

lemma handle_colony_cells: "same_cells h (fst (handle_colony h s ns))"
  by (simp add: handle_colony_def colony_loop_cells)

lemma photosynthesize_pos [simp]:
  "x_of (photosynthesize s a) = x_of a" "y_of (photosynthesize s a) = y_of a"
  by (simp_all add: photosynthesize_def)

lemma check_evolution_pos [simp]:
  "x_of (check_evolution a) = x_of a" "y_of (check_evolution a) = y_of a"
  "energy (check_evolution a) = energy a"
  by (simp_all add: check_evolution_def)

lemma Agent_pos [simp]:
  "x_of (fst (Agent cx cy gs e gen g)) = cx" "y_of (fst (Agent cx cy gs e gen g)) = cy"
  by (simp_all add: Agent_def)

lemma heap_in_grid_same:
  "heap_in_grid st \<Longrightarrow> same_cells (heap st) (heap st') \<Longrightarrow> heap_in_grid st'"
  using same_cells_in_grid by (simp add: heap_in_grid_def)

lemma tick_inv_same:
  assumes "tick_inv st" "same_cells (heap st) (heap st')"
    "new_borns st' = new_borns st" "dead_agents st' = dead_agents st"
  shows "tick_inv st'"
  using assms heap_in_grid_same [of st st'] same_cells_length [OF assms(2)]
  by (simp add: tick_inv_def refs_ok_def)

lemma heap_in_grid_nth:
  "heap_in_grid st \<Longrightarrow> r < length (heap st) \<Longrightarrow>
     in_grid (x_of (heap st ! r), y_of (heap st ! r))"
  by (simp add: heap_in_grid_def)

lemma step_photosynthesis_total:
  assumes "tick_inv st" "r < length (heap st)"
  shows "\<exists>st'. step_photosynthesis night r st = Inr st'"
  using in_grid_np_valid [OF heap_in_grid_nth [of st r]] assms
  by (simp add: step_photosynthesis_def Let_def np_get_def tick_inv_def)

lemma step_photosynthesis_frame:
  assumes "step_photosynthesis night r st = Inr st'"
  shows "same_cells (heap st) (heap st')" "field st' = field st" "new_borns st' = new_borns st"
    "dead_agents st' = dead_agents st"
  using assms
  by (auto simp add: step_photosynthesis_def Let_def same_cells_update
      split: if_splits sum.splits)

lemma step_colony_frame:
  "same_cells (heap st) (heap (fst (step_colony r st)))"
  "field (fst (step_colony r st)) = field st"
  "new_borns (fst (step_colony r st)) = new_borns st"
  "dead_agents (fst (step_colony r st)) = dead_agents st"
  by (simp_all add: step_colony_def Let_def handle_colony_cells)

lemma move_into_frame:
  "length (heap (move_into r t st)) = length (heap st)" "field (move_into r t st) = field st"
  "new_borns (move_into r t st) = new_borns st" "dead_agents (move_into r t st) = dead_agents st"
  by (simp_all add: move_into_def Let_def)

lemma eat_prey_cells: "same_cells (heap st) (heap (eat_prey r other st))"
proof -
  define a where "a = heap st ! r"
  define g where "g = energy (heap st ! other) * PREDATOR_EAT_EFFICIENCY + DEAD_BODY_NUTRIENT"
  define h1 where "h1 = (heap st)[r := a\<lparr>energy := energy a + g\<rparr>]"
  have "same_cells (heap st) h1" unfolding h1_def a_def by (rule same_cells_update) simp_all
  moreover have "same_cells h1 (h1[other := (h1 ! other)\<lparr>is_alive := False\<rparr>])"
    by (rule same_cells_update) simp_all
  ultimately have "same_cells (heap st) (h1[other := (h1 ! other)\<lparr>is_alive := False\<rparr>])"
    by (rule same_cells_trans)
  then show ?thesis by (simp add: eat_prey_def Let_def h1_def a_def g_def)
qed

lemma eat_prey_frame:
  "field (eat_prey r other st) = field st"
  "new_borns (eat_prey r other st) = new_borns st"
  "dead_agents (eat_prey r other st) = dead_agents st"
  by (simp_all add: eat_prey_def Let_def)

lemma set_update_in_grid:
  assumes "\<forall>a \<in> set h. in_grid (x_of a, y_of a)" "in_grid (x_of b, y_of b)"
  shows "\<forall>a \<in> set (h[r := b]). in_grid (x_of a, y_of a)"
  using assms set_update_subset_insert [of h r b] by auto

lemma move_into_in_grid:
  assumes "heap_in_grid st" "in_grid t"
  shows "heap_in_grid (move_into r t st)"
proof -
  have "\<forall>a \<in> set ((heap st)[r := (heap st ! r)\<lparr>x_of := fst t, y_of := snd t\<rparr>]).
          in_grid (x_of a, y_of a)"
    using assms by (intro set_update_in_grid) (simp_all add: heap_in_grid_def)
  then show ?thesis by (simp add: heap_in_grid_def move_into_def Let_def)
qed

lemma resolve_move_frame:
  "length (heap (resolve_move r t st)) = length (heap st)"
  "field (resolve_move r t st) = field st"
  "new_borns (resolve_move r t st) = new_borns st"
  "dead_agents (resolve_move r t st) = dead_agents st"
  using same_cells_length [OF eat_prey_cells]
  by (simp_all add: resolve_move_def move_into_frame eat_prey_frame split: option.splits)

lemma resolve_move_in_grid:
  assumes "heap_in_grid st" "in_grid t"
  shows "heap_in_grid (resolve_move r t st)"
  using assms move_into_in_grid heap_in_grid_same [OF _ eat_prey_cells]
  by (simp add: resolve_move_def split: option.splits)

lemma step_move_frame:
  "length (heap (step_move night att r st)) = length (heap st)"
  "field (step_move night att r st) = field st"
  "new_borns (step_move night att r st) = new_borns st"
  "dead_agents (step_move night att r st) = dead_agents st"
  by (simp_all add: step_move_def Let_def resolve_move_frame)

lemma step_move_inv:
  assumes "tick_inv st" "r < length (heap st)"
  shows "tick_inv (step_move night att r st)"
proof -
  define res where "res = sense_and_move (field st) GRID_WIDTH GRID_HEIGHT night att
                  (heap st ! r) (rand st)"
  define st1 where "st1 = st\<lparr>heap := (heap st)[r := fst res], rand := snd (snd res)\<rparr>"
  have sm: "step_move night att r st = resolve_move r (fst (snd res)) st1"
    by (simp add: step_move_def Let_def res_def st1_def)
  have "same_cells (heap st) (heap st1)"
    unfolding st1_def res_def by (simp add: same_cells_update sense_and_move_pos)
  moreover have "heap_in_grid st" using assms(1) by (simp add: tick_inv_def)
  ultimately have g1: "heap_in_grid st1"
    using heap_in_grid_same by blast
  have "in_grid (x_of (heap st ! r), y_of (heap st ! r))"
    using assms heap_in_grid_nth by (simp add: tick_inv_def)
  then have tgt: "in_grid (fst (snd res))"
    unfolding res_def by (rule sense_and_move_in_grid)
  have "heap_in_grid (step_move night att r st)"
    unfolding sm using g1 tgt by (rule resolve_move_in_grid)
  then show ?thesis using assms(1)
    by (simp add: tick_inv_def refs_ok_def step_move_frame)
qed

lemma step_eat_total:
  assumes "tick_inv st" "r < length (heap st)"
  shows "\<exists>st'. step_eat r st = Inr st'"
  using in_grid_np_valid [OF heap_in_grid_nth [of st r]] assms
  by (simp add: step_eat_def Let_def np_get_def tick_inv_def)

lemma step_eat_frame:
  assumes "step_eat r st = Inr st'"
  shows "same_cells (heap st) (heap st')" "new_borns st' = new_borns st"
    "dead_agents st' = dead_agents st"
  using assms
  by (auto simp add: step_eat_def Let_def same_cells_update split: if_splits sum.splits)

lemma spawn_child_inv:
  assumes "tick_inv st" "in_grid cell"
  shows "tick_inv (spawn_child r cell st)"
proof -
  define a1 where "a1 = (heap st ! r)\<lparr>energy := energy (heap st ! r) / 2,
     offspring_count := offspring_count (heap st ! r) + 1\<rparr>"
  define ch where "ch = fst (Agent (fst cell) (snd cell)
     (fst (mutate_genes (genes (heap st ! r)) (rand st))) (energy (heap st ! r) / 2)
     (generation (heap st ! r) + 1) (snd (mutate_genes (genes (heap st ! r)) (rand st))))"
  have hp: "heap (spawn_child r cell st) = (heap st)[r := a1] @ [ch]"
    and nb: "new_borns (spawn_child r cell st) = new_borns st @ [length (heap st)]"
    and da: "dead_agents (spawn_child r cell st) = dead_agents st"
    by (simp_all add: spawn_child_def Let_def a1_def ch_def)
  have "same_cells (heap st) ((heap st)[r := a1])"
    by (rule same_cells_update) (simp_all add: a1_def)
  then have 1: "\<forall>a \<in> set ((heap st)[r := a1]). in_grid (x_of a, y_of a)"
    using assms(1) same_cells_in_grid by (simp add: tick_inv_def heap_in_grid_def)
  have 2: "in_grid (x_of ch, y_of ch)" using assms(2) by (simp add: ch_def)
  have "heap_in_grid (spawn_child r cell st)"
    unfolding heap_in_grid_def hp using 1 2 by simp
  moreover have "refs_ok (spawn_child r cell st)"
    using assms(1) unfolding refs_ok_def tick_inv_def hp nb da by (simp add: less_Suc_eq)
  ultimately show ?thesis by (simp add: tick_inv_def)
qed

lemma repro_scan_inv:
  assumes "tick_inv st"
  shows "tick_inv (repro_scan r cells st)"
  using assms
  by (induction cells) (simp_all add: spawn_child_inv in_grid_def)

lemma step_reproduce_inv:
  assumes "tick_inv st"
  shows "tick_inv (step_reproduce r st)"
proof -
  have "tick_inv (st\<lparr>rand := g\<rparr>)" for g
    using assms(1) by (simp add: tick_inv_def heap_in_grid_def refs_ok_def)
  then show ?thesis using assms
    by (simp add: step_reproduce_def Let_def repro_scan_inv)
qed

lemma spawn_child_length: "length (heap (spawn_child r cell st)) = Suc (length (heap st))"
  by (simp add: spawn_child_def Let_def)

lemma repro_scan_length: "length (heap st) \<le> length (heap (repro_scan r cells st))"
  by (induction cells) (simp_all add: spawn_child_length)

lemma step_reproduce_length: "length (heap st) \<le> length (heap (step_reproduce r st))"
  using repro_scan_length [of "st\<lparr>rand := g\<rparr>" for g]
  by (simp add: step_reproduce_def Let_def)

lemma step_death_cells: "same_cells (heap st) (heap (step_death r st))"
  by (simp add: step_death_def Let_def same_cells_update)

lemma step_death_inv:
  assumes "tick_inv st" "r < length (heap st)"
  shows "tick_inv (step_death r st)"
proof -
  have "heap_in_grid (step_death r st)"
    using assms(1) heap_in_grid_same [OF _ step_death_cells] by (simp add: tick_inv_def)
  moreover have "length (heap (step_death r st)) = length (heap st)"
    using same_cells_length [OF step_death_cells] .
  moreover have "new_borns (step_death r st) = new_borns st"
    by (simp add: step_death_def Let_def)
  moreover have "set (dead_agents (step_death r st)) \<subseteq> insert r (set (dead_agents st))"
    by (auto simp add: step_death_def Let_def)
  ultimately show ?thesis using assms by (auto simp add: tick_inv_def refs_ok_def)
qed

lemma agent_step_phases:
  assumes "tick_inv st" "r < length (heap st)"
  shows "\<exists>st1 st3 st4.
           step_photosynthesis night r st = Inr st1 \<and> tick_inv st1 \<and>
           length (heap st1) = length (heap st) \<and>
           st3 = step_move night (snd (step_colony r st1)) r (fst (step_colony r st1)) \<and>
           tick_inv st3 \<and> length (heap st3) = length (heap st) \<and>
           step_eat r st3 = Inr st4 \<and> tick_inv st4 \<and> length (heap st4) = length (heap st) \<and>
           agent_step night r st = Inr (step_death r (step_reproduce r st4))"
proof -
  obtain st1 where 1: "step_photosynthesis night r st = Inr st1"
    using step_photosynthesis_total [OF assms] by blast
  have i1: "tick_inv st1"
    using assms(1) step_photosynthesis_frame(1,3,4) [OF 1] by (rule tick_inv_same)
  have n1: "length (heap st1) = length (heap st)"
    using step_photosynthesis_frame(1) [OF 1] by (rule same_cells_length)
  define st2 where "st2 = fst (step_colony r st1)"
  define att where "att = snd (step_colony r st1)"
  have i2: "tick_inv st2"
    using i1 unfolding st2_def by (rule tick_inv_same) (simp_all add: step_colony_frame)
  have n2: "length (heap st2) = length (heap st)"
    using same_cells_length [OF step_colony_frame(1) [of st1 r]] n1 by (simp add: st2_def)
  define st3 where "st3 = step_move night att r st2"
  have i3: "tick_inv st3" and n3: "length (heap st3) = length (heap st)"
    using i2 n2 assms(2) by (simp_all add: st3_def step_move_inv step_move_frame)
  obtain st4 where 4: "step_eat r st3 = Inr st4"
    using step_eat_total [of st3 r] i3 n3 assms(2) by auto
  have i4: "tick_inv st4"
    using i3 step_eat_frame [OF 4] by (rule tick_inv_same)
  have n4: "length (heap st4) = length (heap st)"
    using same_cells_length [OF step_eat_frame(1) [OF 4]] n3 by simp
  have "agent_step night r st = Inr (step_death r (step_reproduce r st4))"
    using 4 by (simp add: agent_step_def 1 Let_def st3_def st2_def att_def)
  then show ?thesis
    using 1 i1 n1 i3 n3 4 i4 n4 unfolding st3_def st2_def att_def by blast
qed

lemma agent_step_inv:
  assumes "tick_inv st" "r < length (heap st)"
  shows "\<exists>st'. agent_step night r st = Inr st' \<and> tick_inv st' \<and>
           length (heap st) \<le> length (heap st')"
proof -
  obtain st4 where i4: "tick_inv st4" and n4: "length (heap st4) = length (heap st)"
    and run: "agent_step night r st = Inr (step_death r (step_reproduce r st4))"
    using agent_step_phases [OF assms, of night] by blast
  define st5 where "st5 = step_reproduce r st4"
  have i5: "tick_inv st5" and n5: "length (heap st) \<le> length (heap st5)"
    using i4 n4 step_reproduce_length [of st4 r]
    by (simp_all add: st5_def step_reproduce_inv)
  have i6: "tick_inv (step_death r st5)"
    using i5 n5 assms(2) by (intro step_death_inv) simp_all
  show ?thesis
    using run i6 n5 same_cells_length [OF step_death_cells [of st5 r]]
    by (simp add: st5_def)
qed

lemma agents_loop_inv:
  assumes "tick_inv st" "\<forall>r \<in> set rs. r < length (heap st)"
  shows "\<exists>st'. agents_loop night rs st = Inr st' \<and> tick_inv st' \<and>
           length (heap st) \<le> length (heap st')"
  using assms
proof (induction rs arbitrary: st)
  case Nil
  then show ?case by simp
next
  case (Cons r rs)
  obtain st1 where 1: "agent_step night r st = Inr st1" "tick_inv st1"
      "length (heap st) \<le> length (heap st1)"
    using agent_step_inv [of st r night] Cons.prems by auto
  have "\<forall>q \<in> set rs. q < length (heap st1)" using Cons.prems 1(3) by auto
  from Cons.IH [OF 1(2) this] obtain st' where
    "agents_loop night rs st1 = Inr st'" "tick_inv st'"
    "length (heap st1) \<le> length (heap st')" by blast
  then show ?case using 1 by auto
qed

lemma recycle_total:
  assumes "\<forall>a \<in> set h. in_grid (x_of a, y_of a)" "\<forall>r \<in> set ds. r < length h"
  shows "\<exists>nut'. recycle h ds nut = Inr nut'"
  using assms(2)
proof (induction ds arbitrary: nut)
  case Nil
  then show ?case by simp
next
  case (Cons d ds)
  have "in_grid (x_of (h ! d), y_of (h ! d))" using assms(1) Cons.prems by simp
  then have "np_valid (x_of (h ! d)) (y_of (h ! d))" by (rule in_grid_np_valid)
  then show ?case using Cons by (simp add: Let_def)
qed

lemma start_tick_inv: "agents_in_grid (agents e) \<Longrightarrow> tick_inv (start_tick e g)"
  by (simp add: start_tick_def Let_def tick_inv_def heap_in_grid_def refs_ok_def
      agents_in_grid_def)

lemma start_tick_heap: "heap (start_tick e g) = agents e"
  by (simp add: start_tick_def Let_def)

lemma update_agents_in_grid:
  assumes "agents_in_grid (agents e)"
  shows "\<exists>e' ev g'. update_agents e g = Inr (e', ev, g') \<and> agents_in_grid (agents e')"
proof -
  have "\<forall>r \<in> set [0..<length (agents e)]. r < length (heap (start_tick e g))"
    by (simp add: start_tick_heap)
  from agents_loop_inv [OF start_tick_inv [OF assms] this]
  obtain st where run: "run_agents e g = Inr st" and inv: "tick_inv st"
    and len: "length (agents e) \<le> length (heap st)"
    unfolding run_agents_def start_tick_heap by blast
  have hg: "\<forall>a \<in> set (heap st). in_grid (x_of a, y_of a)"
    and nb: "\<forall>r \<in> set (new_borns st). r < length (heap st)"
    and da: "\<forall>r \<in> set (dead_agents st). r < length (heap st)"
    using inv by (simp_all add: tick_inv_def heap_in_grid_def refs_ok_def)
  obtain nut where rc: "recycle (heap st) (dead_agents st) (field st) = Inr nut"
    using recycle_total [OF hg da] by blast
  define pop where "pop = filter is_alive (take (length (agents e)) (heap st)) @
     map (\<lambda>c. heap st ! c) (new_borns st)"
  have "set pop \<subseteq> set (heap st)"
    using nb by (auto simp add: pop_def dest: in_set_takeD)
  then have "agents_in_grid pop" using hg by (auto simp add: agents_in_grid_def)
  moreover have "update_agents e g =
     Inr (\<lparr>nutrients = nut, agents = pop, global_time = global_time e + 1,
           is_night = night_at (global_time e + 1)\<rparr>, events st, rand st)"
    by (simp add: update_agents_def run finish_tick_def Let_def rc pop_def)
  ultimately show ?thesis by simp
qed

text \<open>An attached agent keeps its coordinates through the movement step of the tick.\<close>

lemma step_move_attached:
  assumes "r < length (heap st)"
  shows "x_of (heap (step_move night True r st) ! r) = x_of (heap st ! r) \<and>
         y_of (heap (step_move night True r st) ! r) = y_of (heap st ! r)"
  using assms
  by (auto simp add: step_move_def resolve_move_def move_into_def eat_prey_def
      sense_and_move_def seek_move_def Let_def split: option.splits)

text \<open>
  C2. A tick of \<open>update_agents\<close> on a population whose agents all stand on the grid
  returns (no index error is raised), and every agent of the population it leaves, survivor
  or newborn, stands on the grid again; and the cell \<open>sense_and_move\<close> returns for an
  agent on the grid is on the grid, whatever the field, the hour, the attachment flag and
  the random draws.
\<close>

theorem bounded_coordinates:
  assumes "agents_in_grid (agents e)"
  shows "(\<exists>e' ev g'. update_agents e g = Inr (e', ev, g') \<and> agents_in_grid (agents e')) \<and>
         (in_grid (x_of a, y_of a) \<longrightarrow>
            in_grid (fst (snd (sense_and_move nut GRID_WIDTH GRID_HEIGHT night att a g2))))"
  using assms update_agents_in_grid sense_and_move_in_grid by blast

theorem bounded_coordinates_witness:
  "agents_in_grid (agents pair_env) \<and>
   (\<exists>e' ev g'. update_agents pair_env rng_zero = Inr (e', ev, g') \<and> agents_in_grid (agents e')) \<and>
   in_grid (x_of (sticky 0 0.6 30.0), y_of (sticky 0 0.6 30.0)) \<and>
   in_grid (fst (snd (sense_and_move single_peak GRID_WIDTH GRID_HEIGHT False False
                        (sticky 0 0.6 30.0) rng_zero)))"
  using bounded_coordinates [of pair_env rng_zero "sticky 0 0.6 30.0" single_peak False False rng_zero]
  by (simp add: agents_in_grid_def pair_env_def colony_pair_def in_grid_def
      GRID_WIDTH_def GRID_HEIGHT_def)

subsection \<open>The colony dead band in the tick\<close>

lemma same_cells_nth:
  assumes "same_cells h h'" "r < length h"
  shows "x_of (h' ! r) = x_of (h ! r) \<and> y_of (h' ! r) = y_of (h ! r)"
proof -
  have "length h' = length h" using assms(1) by (rule same_cells_length)
  then have "map (\<lambda>a. (x_of a, y_of a)) h' ! r = (x_of (h' ! r), y_of (h' ! r))"
    "map (\<lambda>a. (x_of a, y_of a)) h ! r = (x_of (h ! r), y_of (h ! r))"
    using assms(2) by simp_all
  then show ?thesis using assms(1) by (simp add: same_cells_def)
qed

lemma spawn_child_nth:
  assumes "q < length (heap st)"
  shows "x_of (heap (spawn_child r cell st) ! q) = x_of (heap st ! q) \<and>
         y_of (heap (spawn_child r cell st) ! q) = y_of (heap st ! q)"
  using assms by (cases "q = r") (simp_all add: spawn_child_def Let_def nth_append)

lemma repro_scan_nth:
  assumes "q < length (heap st)"
  shows "x_of (heap (repro_scan r cells st) ! q) = x_of (heap st ! q) \<and>
         y_of (heap (repro_scan r cells st) ! q) = y_of (heap st ! q)"
  using assms by (induction cells) (simp_all add: spawn_child_nth)

lemma step_reproduce_nth:
  assumes "q < length (heap st)"
  shows "x_of (heap (step_reproduce r st) ! q) = x_of (heap st ! q) \<and>
         y_of (heap (step_reproduce r st) ! q) = y_of (heap st ! q)"
  using repro_scan_nth [of q "st\<lparr>rand := g\<rparr>" for g] assms
  by (simp add: step_reproduce_def Let_def)

lemma handle_colony_level:
  assumes "adhesion (genes (h ! i)) \<ge> 0.5" "adhesion (genes (h ! j)) \<ge> 0.5"
    "\<bar>energy (h ! i) - energy (h ! j)\<bar> \<le> 1.0"
  shows "handle_colony h i [j] = (h, True)"
  using assms by (simp add: handle_colony_def Let_def)

lemma attached_agent_stays:
  assumes "tick_inv st" "r < length (heap st)"
    "step_photosynthesis night r st = Inr st1" "step_colony r st1 = (st1, True)"
  shows "\<exists>st'. agent_step night r st = Inr st' \<and>
           x_of (heap st' ! r) = x_of (heap st ! r) \<and> y_of (heap st' ! r) = y_of (heap st ! r)"
proof -
  obtain st3 st4 where
    n1: "length (heap st1) = length (heap st)" and
    3: "st3 = step_move night True r st1" and
    n3: "length (heap st3) = length (heap st)" and
    4: "step_eat r st3 = Inr st4" and n4: "length (heap st4) = length (heap st)" and
    run: "agent_step night r st = Inr (step_death r (step_reproduce r st4))"
    using agent_step_phases [OF assms(1,2), of night] assms(3,4) by auto
  have p1: "x_of (heap st1 ! r) = x_of (heap st ! r) \<and> y_of (heap st1 ! r) = y_of (heap st ! r)"
    using same_cells_nth [OF step_photosynthesis_frame(1) [OF assms(3)] assms(2)] .
  have p3: "x_of (heap st3 ! r) = x_of (heap st1 ! r) \<and> y_of (heap st3 ! r) = y_of (heap st1 ! r)"
    unfolding 3 using step_move_attached [of r st1 night] assms(2) n1 by simp
  have p4: "x_of (heap st4 ! r) = x_of (heap st3 ! r) \<and> y_of (heap st4 ! r) = y_of (heap st3 ! r)"
    using same_cells_nth [OF step_eat_frame(1) [OF 4], of r] assms(2) n3 by simp
  have p5: "x_of (heap (step_reproduce r st4) ! r) = x_of (heap st4 ! r) \<and>
            y_of (heap (step_reproduce r st4) ! r) = y_of (heap st4 ! r)"
    using step_reproduce_nth [of r st4 r] assms(2) n4 by simp
  have "r < length (heap (step_reproduce r st4))"
    using step_reproduce_length [of st4 r] assms(2) n4 by simp
  then have p6: "x_of (heap (step_death r (step_reproduce r st4)) ! r) =
                   x_of (heap (step_reproduce r st4) ! r) \<and>
                 y_of (heap (step_death r (step_reproduce r st4)) ! r) =
                   y_of (heap (step_reproduce r st4) ! r)"
    using same_cells_nth [OF step_death_cells [of "step_reproduce r st4" r], of r] by simp
  show ?thesis using run p1 p3 p4 p5 p6 by simp
qed

text \<open>
  C10. Two sticky agents (both adhesion at least 0.5) whose energies differ by at most 1.0:
  \<open>handle_colony\<close> leaves the whole store as it was and still reports the caller
  attached. In the tick: when, after the photosynthesis step of agent \<open>i\<close>, the store is
  such a store and \<open>j\<close> is the one occupant of the eight cells around \<open>i\<close>, the colony
  step changes nothing and hands the flag \<open>True\<close> to the movement step, and the body of
  the loop for \<open>i\<close> returns with \<open>i\<close> on the cell where it started: its movement is
  suppressed for that tick, whatever the field, the hour and the draws.
\<close>

theorem colony_dead_band:
  assumes "adhesion (genes (h ! i)) \<ge> 0.5" "adhesion (genes (h ! j)) \<ge> 0.5"
    "\<bar>energy (h ! i) - energy (h ! j)\<bar> \<le> 1.0"
  shows "handle_colony h i [j] = (h, True) \<and>
         (tick_inv st \<and> i < length (heap st) \<and> step_photosynthesis night i st = Inr st1 \<and>
          heap st1 = h \<and> colony_neighbors (occupied st1) (h ! i) = [j] \<longrightarrow>
            step_colony i st1 = (st1, True) \<and>
            (\<exists>st'. agent_step night i st = Inr st' \<and>
               x_of (heap st' ! i) = x_of (heap st ! i) \<and>
               y_of (heap st' ! i) = y_of (heap st ! i)))"
proof -
  have hc: "handle_colony h i [j] = (h, True)"
    using assms by (rule handle_colony_level)
  have "step_colony i st1 = (st1, True)"
    if "heap st1 = h" "colony_neighbors (occupied st1) (h ! i) = [j]"
    using that assms(1) hc by (simp add: step_colony_def Let_def)
  then show ?thesis using hc attached_agent_stays [of st i night st1] by blast
qed

theorem colony_dead_band_witness:
  "handle_colony colony_level 0 [1] = (colony_level, True) \<and>
   tick_inv level_tick \<and> step_photosynthesis False 0 level_tick = Inr level_tick \<and>
   colony_neighbors (occupied level_tick) (colony_level ! 0) = [1] \<and>
   step_colony 0 level_tick = (level_tick, True) \<and>
   (\<exists>st'. agent_step False 0 level_tick = Inr st' \<and>
      x_of (heap st' ! 0) = 0 \<and> y_of (heap st' ! 0) = 0)"
proof -
  have 1: "tick_inv level_tick"
    by (simp add: tick_inv_def heap_in_grid_def refs_ok_def level_tick_def colony_level_def
        in_grid_def GRID_WIDTH_def GRID_HEIGHT_def)
  have 2: "step_photosynthesis False 0 level_tick = Inr level_tick"
    by (simp add: step_photosynthesis_def level_tick_def colony_level_def np_get_def
        np_valid_def GRID_WIDTH_def GRID_HEIGHT_def photosynthesize_def sticky_def Let_def)
  have 3: "colony_neighbors (occupied level_tick) (colony_level ! 0) = [1]"
    by (simp add: colony_neighbors_def neighbor_offsets_def level_tick_def colony_level_def
        List.map_filter_def)
  show ?thesis
    using colony_dead_band [of colony_level 0 1 level_tick False level_tick] 1 2 3
    by (simp add: level_tick_def colony_level_def)
qed

subsection \<open>Phases of the tick on given states\<close>

lemma photosynthesize_zero: "photosynthesize 0 a = a"
  by (simp add: photosynthesize_def)

lemma step_photosynthesis_night: "step_photosynthesis True r st = Inr st"
  by (simp add: step_photosynthesis_def photosynthesize_zero)

lemma step_photosynthesis_day:
  "in_grid (x_of (heap st ! r), y_of (heap st ! r)) \<Longrightarrow>
   step_photosynthesis False r st =
     Inr (st\<lparr>heap := (heap st)[r := photosynthesize
            (sunlight_gradient (x_of (heap st ! r), y_of (heap st ! r))) (heap st ! r)]\<rparr>)"
  by (simp add: step_photosynthesis_def np_get_def in_grid_np_valid in_grid_np_norm Let_def)

lemma step_colony_loose:
  "adhesion (genes (heap st ! r)) < 0.5 \<Longrightarrow> step_colony r st = (st, False)"
  by (simp add: step_colony_def)

lemma sense_and_move_dormant:
  "is_predator a \<Longrightarrow> sense_and_move nut w hh False att a g =
     (a\<lparr>energy := energy a - metabolism (genes a) * PREDATOR_METABOLISM_PENALTY * 0.1\<rparr>,
      (x_of a, y_of a), g)"
  by (simp add: sense_and_move_def PREDATOR_DAY_ACTIVITY_def)

lemma sense_and_move_sluggish:
  "\<not> is_predator a \<Longrightarrow> fst (random_random g) > NIGHT_MOVE_CHANCE \<Longrightarrow>
   sense_and_move nut w hh True att a g =
     (a\<lparr>energy := energy a - metabolism (genes a) * NIGHT_METABOLISM_FACTOR\<rparr>,
      (x_of a, y_of a), snd (random_random g))"
  by (simp add: sense_and_move_def)

lemma scan_patch_energy: "scan_patch nut w hh (a\<lparr>energy := e\<rparr>) = scan_patch nut w hh a"
  by (simp add: scan_patch_def)

lemma sense_and_move_hunt:
  assumes "is_predator a" "scan_patch nut w hh a = Some (bx, by, v)" "v > - 1"
    "bx \<noteq> x_of a \<or> by \<noteq> y_of a"
  shows "sense_and_move nut w hh True False a g =
     (a\<lparr>energy := energy a - metabolism (genes a) * PREDATOR_METABOLISM_PENALTY
                   - metabolism (genes a) * 0.5\<rparr>,
      (x_of a + sgn (bx - x_of a), y_of a + sgn (by - y_of a)), g)"
  using assms by (simp add: sense_and_move_def seek_move_def scan_patch_energy Let_def)

lemma resolve_move_vacant:
  "occupied st t = None \<Longrightarrow> resolve_move r t st = move_into r t st"
  by (simp add: resolve_move_def)

lemma resolve_move_eat:
  "occupied st t = Some other \<Longrightarrow> predation_fires (heap st ! r) (heap st ! other) \<Longrightarrow>
   resolve_move r t st = move_into r t (eat_prey r other st)"
  by (simp add: resolve_move_def)

lemma resolve_move_blocked:
  "occupied st t = Some other \<Longrightarrow> \<not> predation_fires (heap st ! r) (heap st ! other) \<Longrightarrow>
   resolve_move r t st = st"
  by (simp add: resolve_move_def)

lemma step_eat_predator: "is_predator (heap st ! r) \<Longrightarrow> step_eat r st = Inr st"
  by (simp add: step_eat_def)

lemma step_eat_grazing:
  "\<not> is_predator (heap st ! r) \<Longrightarrow> in_grid (x_of (heap st ! r), y_of (heap st ! r)) \<Longrightarrow>
   step_eat r st =
     Inr (st\<lparr>heap := (heap st)[r := (heap st ! r)\<lparr>energy := energy (heap st ! r) +
                 min (field st (x_of (heap st ! r), y_of (heap st ! r))) 2\<rparr>],
             field := (field st)((x_of (heap st ! r), y_of (heap st ! r)) :=
                 f32 (field st (x_of (heap st ! r), y_of (heap st ! r)) -
                      min (field st (x_of (heap st ! r), y_of (heap st ! r))) 2))\<rparr>)"
  by (simp add: step_eat_def np_get_def in_grid_np_valid in_grid_np_norm Let_def)

lemma step_reproduce_below:
  "energy (heap st ! r) \<le> repro_threshold (genes (heap st ! r)) \<Longrightarrow> step_reproduce r st = st"
  by (simp add: step_reproduce_def)

lemma sense_and_move_idle:
  assumes "is_predator a" "scan_patch nut w hh a = Some (x_of a, y_of a, v)"
    "\<not> fst (random_random g) < 0.2"
  shows "sense_and_move nut w hh True False a g =
     (a\<lparr>energy := energy a - metabolism (genes a) * PREDATOR_METABOLISM_PENALTY\<rparr>,
      (x_of a, y_of a), snd (random_random g))"
  using assms by (simp add: sense_and_move_def seek_move_def scan_patch_energy Let_def)

lemma upto_two: "[0..1] = [0, 1]"
  by (simp add: upto_rec1)

lemma three_by_two:
  "Suc (Suc (Suc 0)) div Suc (Suc 0) = Suc 0 \<and> Suc (Suc (Suc 0)) mod Suc (Suc 0) = Suc 0"
proof -
  have "(3::nat) div 2 = 1 \<and> (3::nat) mod 2 = 1" by simp
  then show ?thesis by (simp only: numeral_2_eq_2 numeral_3_eq_3 One_nat_def)
qed

lemma night_time: "night_at 301"
  by (simp add: night_at_def CYCLE_LENGTH_def DAY_RATIO_def)

lemma f32_3: "f32 3 = 3"
  using f32_eval [of 1 3] by (simp add: pow2_def py_round_def Let_def)

lemma f32_15: "f32 15 = 15"
  using f32_eval [of 3 15] by (simp add: pow2_def py_round_def Let_def)

subsection \<open>Three ticks traced\<close>

lemma hunter_sel [simp]:
  "x_of hunter = 0" "y_of hunter = 0" "energy hunter = 20" "age hunter = 0"
  "is_alive hunter" "is_predator hunter"
  "metabolism (genes hunter) = 1" "repro_threshold (genes hunter) = 60"
  "sense_range (genes hunter) = 1" "size_gene (genes hunter) = 3"
  "photosynthesis_efficiency (genes hunter) = 0" "adhesion (genes hunter) = 0"
  by (simp_all add: hunter_def)

lemma grazer_sel [simp]:
  "x_of grazer = 1" "y_of grazer = 0" "energy grazer = 30" "age grazer = 0"
  "is_alive grazer" "\<not> is_predator grazer"
  "metabolism (genes grazer) = 0.5" "repro_threshold (genes grazer) = 60"
  "sense_range (genes grazer) = 1" "size_gene (genes grazer) = 1"
  "photosynthesis_efficiency (genes grazer) = 0" "adhesion (genes grazer) = 0"
  "offspring_count grazer = 0"
  by (simp_all add: grazer_def)

lemma starver_sel [simp]:
  "x_of starver = 0" "y_of starver = 0" "energy starver = 1" "age starver = 0"
  "is_alive starver" "is_predator starver"
  "metabolism (genes starver) = 1" "repro_threshold (genes starver) = 60"
  "sense_range (genes starver) = 1" "size_gene (genes starver) = 3"
  "photosynthesis_efficiency (genes starver) = 0" "adhesion (genes starver) = 0"
  by (simp_all add: starver_def)

lemma night_env_sel [simp]:
  "agents night_env = [hunter, grazer]" "global_time night_env = 300" "nutrients night_env = bait"
  by (simp_all add: night_env_def)

lemma famine_env_sel [simp]:
  "agents famine_env = [starver]" "global_time famine_env = 300"
  "nutrients famine_env = full_field"
  by (simp_all add: famine_env_def)

lemma hunter_scan: "scan_patch bait GRID_WIDTH GRID_HEIGHT hunter = Some (1, 0, 5)"
  by (simp add: scan_patch_def np_slice_def np_argmax_def bait_def upto_two Let_def
      GRID_WIDTH_def GRID_HEIGHT_def)

lemma starver_scan: "scan_patch full_field GRID_WIDTH GRID_HEIGHT starver = Some (0, 0, 10)"
  by (simp add: scan_patch_def np_slice_def np_argmax_def full_field_def upto_two Let_def
      GRID_WIDTH_def GRID_HEIGHT_def)

lemma night_start_eq: "start_tick night_env rng_half = night_start"
  by (simp add: start_tick_def night_start_def upt_rec numeral_2_eq_2)

lemma famine_start_eq: "start_tick famine_env rng_half = famine_start"
  by (simp add: start_tick_def famine_start_def)

lemma starver_step: "agent_step True 0 famine_start = Inr famine_end"
proof -
  have 1: "step_photosynthesis True 0 famine_start = Inr famine_start"
    by (rule step_photosynthesis_night)
  have 2: "step_colony 0 famine_start = (famine_start, False)"
    by (simp add: step_colony_loose famine_start_def)
  define s3 where "s3 = famine_start\<lparr>heap := [starver\<lparr>energy := - 0.5\<rparr>]\<rparr>"
  have sm: "sense_and_move full_field GRID_WIDTH GRID_HEIGHT True False starver rng_half =
      (starver\<lparr>energy := - 0.5\<rparr>, (0, 0), rng_half)"
    using sense_and_move_idle [of starver full_field GRID_WIDTH GRID_HEIGHT 10 rng_half]
      starver_scan
    by (simp add: PREDATOR_METABOLISM_PENALTY_def)
  have 3: "step_move True False 0 famine_start = s3"
    by (simp add: step_move_def famine_start_def sm Let_def resolve_move_def predation_fires_def
        s3_def)
  have 4: "step_eat 0 s3 = Inr s3"
    by (simp add: step_eat_predator s3_def famine_start_def)
  have 5: "step_reproduce 0 s3 = s3"
    by (simp add: step_reproduce_below s3_def famine_start_def)
  have 6: "step_death 0 s3 = famine_end"
    by (simp add: step_death_def check_evolution_def s3_def famine_start_def famine_end_def
        Let_def)
  show ?thesis
    using 1 2 3 4 5 6 by (simp add: agent_step_def Let_def)
qed

lemma famine_run: "run_agents famine_env rng_half = Inr famine_end"
  using starver_step
  by (simp add: run_agents_def famine_start_eq night_time)

lemma famine_update:
  "update_agents famine_env rng_half =
     Inr (\<lparr>nutrients = full_field((0, 0) := 15), agents = [], global_time = 301,
           is_night = True\<rparr>, [], rng_half)"
  by (simp add: update_agents_def famine_run finish_tick_def famine_end_def famine_start_def
      night_time np_valid_def np_norm_def GRID_WIDTH_def GRID_HEIGHT_def
      DEAD_BODY_NUTRIENT_def full_field_def f32_15 Let_def)

lemma hunter_step: "agent_step True 0 night_start = Inr night_mid"
proof -
  have 1: "step_photosynthesis True 0 night_start = Inr night_start"
    by (rule step_photosynthesis_night)
  have 2: "step_colony 0 night_start = (night_start, False)"
    by (simp add: step_colony_loose night_start_def)
  define s3 where "s3 = night_start\<lparr>heap := [hunter\<lparr>x_of := 1, y_of := 0, energy := 47\<rparr>,
       grazer\<lparr>is_alive := False\<rparr>], occupied := [(1, 0) \<mapsto> 0], events := [Eat 0 0]\<rparr>"
  have sm: "sense_and_move bait GRID_WIDTH GRID_HEIGHT True False hunter rng_half =
      (hunter\<lparr>energy := 18\<rparr>, (1, 0), rng_half)"
    using sense_and_move_hunt [OF _ hunter_scan, of rng_half]
    by (simp add: PREDATOR_METABOLISM_PENALTY_def)
  have 3: "step_move True False 0 night_start = s3"
    by (simp add: step_move_def night_start_def sm Let_def resolve_move_def predation_fires_def
        eat_prey_def move_into_def PREDATOR_EAT_EFFICIENCY_def DEAD_BODY_NUTRIENT_def s3_def)
  have 4: "step_eat 0 s3 = Inr s3"
    by (simp add: step_eat_predator s3_def night_start_def)
  have 5: "step_reproduce 0 s3 = s3"
    by (simp add: step_reproduce_below s3_def night_start_def)
  have 6: "step_death 0 s3 = night_mid"
    by (simp add: step_death_def check_evolution_def s3_def night_start_def night_mid_def Let_def)
  show ?thesis
    using 1 2 3 4 5 6 by (simp add: agent_step_def Let_def)
qed

lemma grazer_step: "agent_step True 1 night_mid = Inr night_end"
proof -
  have 1: "step_photosynthesis True 1 night_mid = Inr night_mid"
    by (rule step_photosynthesis_night)
  have 2: "step_colony 1 night_mid = (night_mid, False)"
    by (simp add: step_colony_loose night_mid_def)
  define s3 where "s3 = night_mid\<lparr>heap := [hunter\<lparr>x_of := 1, y_of := 0, energy := 47, age := 1\<rparr>,
       grazer\<lparr>energy := 29.25, is_alive := False\<rparr>]\<rparr>"
  have sm: "sense_and_move bait GRID_WIDTH GRID_HEIGHT True False (grazer\<lparr>is_alive := False\<rparr>) rng_half =
      (grazer\<lparr>energy := 29.25, is_alive := False\<rparr>, (1, 0), rng_half)"
    by (simp add: sense_and_move_sluggish NIGHT_MOVE_CHANCE_def NIGHT_METABOLISM_FACTOR_def)
  have 3: "step_move True False 1 night_mid = s3"
    by (simp add: step_move_def night_mid_def sm Let_def resolve_move_def predation_fires_def
        s3_def)
  define s4 where "s4 = s3\<lparr>heap := [hunter\<lparr>x_of := 1, y_of := 0, energy := 47, age := 1\<rparr>,
       grazer\<lparr>energy := 31.25, is_alive := False\<rparr>], field := bait((1, 0) := 3)\<rparr>"
  have 4: "step_eat 1 s3 = Inr s4"
    by (simp add: step_eat_grazing s3_def s4_def night_mid_def in_grid_def
        GRID_WIDTH_def GRID_HEIGHT_def) (simp add: bait_def f32_3)
  have 5: "step_reproduce 1 s4 = s4"
    by (simp add: step_reproduce_below s4_def s3_def night_mid_def)
  have 6: "step_death 1 s4 = night_end"
    by (simp add: step_death_def check_evolution_def s4_def s3_def night_mid_def night_end_def
        Let_def PREDATOR_THRESHOLD_ENERGY_def)
  show ?thesis
    using 1 2 3 4 5 6 by (simp add: agent_step_def Let_def)
qed

lemma night_run: "run_agents night_env rng_half = Inr night_end"
  using hunter_step grazer_step
  by (simp add: run_agents_def night_start_eq night_time upt_rec numeral_2_eq_2)

lemma night_update:
  "update_agents night_env rng_half =
     Inr (\<lparr>nutrients = bait((1, 0) := 3),
           agents = [hunter\<lparr>x_of := 1, y_of := 0, energy := 47, age := 1\<rparr>],
           global_time = 301, is_night = True\<rparr>, [Eat 0 0], rng_half)"
  by (simp add: update_agents_def night_run finish_tick_def night_end_def night_mid_def
      night_time Let_def)

lemma parent_sel [simp]:
  "x_of parent = 1" "y_of parent = 0" "energy parent = 30.75" "age parent = 0"
  "is_alive parent" "\<not> is_predator parent" "generation parent = 1"
  "metabolism (genes parent) = 0.5" "repro_threshold (genes parent) = 10"
  "sense_range (genes parent) = 1" "size_gene (genes parent) = 1"
  "photosynthesis_efficiency (genes parent) = 0" "adhesion (genes parent) = 0"
  "offspring_count parent = 0"
  by (simp_all add: parent_def)

lemma Agent_sel [simp]:
  "x_of (fst (Agent ax ay gs e gen g)) = ax" "y_of (fst (Agent ax ay gs e gen g)) = ay"
  "energy (fst (Agent ax ay gs e gen g)) = e" "genes (fst (Agent ax ay gs e gen g)) = gs"
  "is_alive (fst (Agent ax ay gs e gen g))" "\<not> is_predator (fst (Agent ax ay gs e gen g))"
  "generation (fst (Agent ax ay gs e gen g)) = gen" "age (fst (Agent ax ay gs e gen g)) = 0"
  "offspring_count (fst (Agent ax ay gs e gen g)) = 0"
  by (simp_all add: Agent_def)

lemma Agent_rng_half [simp]: "snd (Agent ax ay gs e gen rng_half) = rng_half"
  by (simp add: Agent_def random_randint_def)

lemma infant_sel [simp]:
  "x_of infant = 1" "y_of infant = 1" "energy infant = 15" "is_alive infant"
  "\<not> is_predator infant" "generation infant = 2" "size_gene (genes infant) = 1"
  by (simp_all add: infant_def)

lemma birth_env_sel [simp]:
  "agents birth_env = [parent, hunter]" "global_time birth_env = 300"
  "nutrients birth_env = corner_food"
  by (simp_all add: birth_env_def)

lemma corner_food_sel [simp]: "corner_food (1, 0) = 0" "corner_food (1, 1) = 5"
  by (simp_all add: corner_food_def)

lemma corner_food_upd [simp]: "corner_food((1, 0) := 0) = corner_food"
  by (auto simp add: corner_food_def)

lemma shuffle_step_half:
  "shuffle_from (Suc i) xs rng_half =
     shuffle_from i (swap (Suc i) (rng_half 0 mod (i + 2)) xs) rng_half"
  by (simp add: randbelow_def)

lemma half_mods:
  "rng_half 0 mod (Suc (Suc 0) + 2) = 0" "rng_half 0 mod (Suc 0 + 2) = Suc 0"
  "rng_half 0 mod (0 + 2) = 0"
proof -
  show "rng_half 0 mod (Suc (Suc 0) + 2) = 0" "rng_half 0 mod (Suc 0 + 2) = Suc 0"
    by (simp_all add: rng_half_def)
  have "(4503599627370496::nat) mod 2 = 0" by simp
  then show "rng_half 0 mod (0 + 2) = 0" by (simp only: rng_half_def add_0)
qed

lemma swaps:
  "swap (Suc (Suc (Suc 0))) 0 [a, b, c, d] = [d, b, c, a]"
  "swap (Suc (Suc 0)) (Suc 0) [d, b, c, a] = [d, c, b, a]"
  "swap (Suc 0) 0 [d, c, b, a] = [c, d, b, a]"
  by (simp_all add: swap_def)

lemma shuffle_half: "random_shuffle [a, b, c, d] rng_half = ([c, d, b, a], rng_half)"
proof -
  have "length [a, b, c, d] - 1 = Suc (Suc (Suc 0))" by simp
  then have "random_shuffle [a, b, c, d] rng_half =
      shuffle_from (Suc (Suc (Suc 0))) [a, b, c, d] rng_half"
    by (simp only: random_shuffle_def)
  also have "\<dots> = shuffle_from (Suc (Suc 0)) [d, b, c, a] rng_half"
    by (simp only: shuffle_step_half half_mods swaps)
  also have "\<dots> = shuffle_from (Suc 0) [d, c, b, a] rng_half"
    by (simp only: shuffle_step_half half_mods swaps)
  also have "\<dots> = shuffle_from 0 [c, d, b, a] rng_half"
    by (simp only: shuffle_step_half half_mods swaps)
  finally show ?thesis by (simp only: shuffle_from.simps)
qed

lemma mutate_half: "mutate_genes gs rng_half = (gs, rng_half)"
  by (simp add: mutate_genes_def mutate_real_def mutate_int_def MUTATION_RATE_def)

lemma hunter_scan_corner: "scan_patch corner_food GRID_WIDTH GRID_HEIGHT hunter = Some (1, 1, 5)"
  by (simp add: scan_patch_def np_slice_def np_argmax_def corner_food_def upto_two Let_def
      GRID_WIDTH_def GRID_HEIGHT_def three_by_two)

lemma birth_start_eq: "start_tick birth_env rng_half = birth_start"
  by (simp add: start_tick_def birth_start_def upt_rec numeral_2_eq_2)

lemma parent_step: "agent_step True 0 birth_start = Inr birth_mid"
proof -
  have 1: "step_photosynthesis True 0 birth_start = Inr birth_start"
    by (rule step_photosynthesis_night)
  have 2: "step_colony 0 birth_start = (birth_start, False)"
    by (simp add: step_colony_loose birth_start_def)
  define s3 where "s3 = birth_start\<lparr>heap := [parent\<lparr>energy := 30\<rparr>, hunter]\<rparr>"
  have sm: "sense_and_move corner_food GRID_WIDTH GRID_HEIGHT True False parent rng_half =
      (parent\<lparr>energy := 30\<rparr>, (1, 0), rng_half)"
    by (simp add: sense_and_move_sluggish NIGHT_MOVE_CHANCE_def NIGHT_METABOLISM_FACTOR_def)
  have 3: "step_move True False 0 birth_start = s3"
    by (simp add: step_move_def birth_start_def sm Let_def resolve_move_def predation_fires_def
        s3_def)
  have 4: "step_eat 0 s3 = Inr s3"
    by (simp add: step_eat_grazing s3_def birth_start_def in_grid_def
        GRID_WIDTH_def GRID_HEIGHT_def)
  define s5 where "s5 = birth_mid\<lparr>heap := [parent\<lparr>energy := 15, offspring_count := 1\<rparr>,
      hunter, infant]\<rparr>"
  have 5: "step_reproduce 0 s3 = s5"
    by (simp add: step_reproduce_def s3_def birth_start_def shuffle_half Let_def
        GRID_WIDTH_def GRID_HEIGHT_def spawn_child_def mutate_half s5_def birth_mid_def
        infant_def numeral_2_eq_2)
  have 6: "step_death 0 s5 = birth_mid"
    by (simp add: step_death_def check_evolution_def s5_def birth_mid_def Let_def
        PREDATOR_THRESHOLD_ENERGY_def)
  show ?thesis
    using 1 2 3 4 5 6 by (simp add: agent_step_def Let_def)
qed

lemma hunter_birth_step: "agent_step True 1 birth_mid = Inr birth_end"
proof -
  have 1: "step_photosynthesis True 1 birth_mid = Inr birth_mid"
    by (rule step_photosynthesis_night)
  have 2: "step_colony 1 birth_mid = (birth_mid, False)"
    by (simp add: step_colony_loose birth_mid_def)
  define s3 where "s3 = birth_end\<lparr>heap := [parent\<lparr>energy := 15, age := 1, offspring_count := 1\<rparr>,
                       hunter\<lparr>x_of := 1, y_of := 1, energy := 35\<rparr>,
                       infant\<lparr>is_alive := False\<rparr>]\<rparr>"
  have sm: "sense_and_move corner_food GRID_WIDTH GRID_HEIGHT True False hunter rng_half =
      (hunter\<lparr>energy := 18\<rparr>, (1, 1), rng_half)"
    using sense_and_move_hunt [OF _ hunter_scan_corner, of rng_half]
    by (simp add: PREDATOR_METABOLISM_PENALTY_def)
  have 3: "step_move True False 1 birth_mid = s3"
    by (simp add: step_move_def birth_mid_def sm Let_def resolve_move_def predation_fires_def
        eat_prey_def move_into_def PREDATOR_EAT_EFFICIENCY_def DEAD_BODY_NUTRIENT_def s3_def
        birth_end_def)
  have 4: "step_eat 1 s3 = Inr s3"
    by (simp add: step_eat_predator s3_def birth_end_def)
  have 5: "step_reproduce 1 s3 = s3"
    by (simp add: step_reproduce_below s3_def birth_end_def)
  have 6: "step_death 1 s3 = birth_end"
    by (simp add: step_death_def check_evolution_def s3_def birth_end_def Let_def)
  show ?thesis
    using 1 2 3 4 5 6 by (simp add: agent_step_def Let_def)
qed

lemma birth_run: "run_agents birth_env rng_half = Inr birth_end"
  using parent_step hunter_birth_step
  by (simp add: run_agents_def birth_start_eq night_time upt_rec numeral_2_eq_2)

lemma birth_update:
  "update_agents birth_env rng_half =
     Inr (\<lparr>nutrients = corner_food,
           agents = [parent\<lparr>energy := 15, age := 1, offspring_count := 1\<rparr>,
                     hunter\<lparr>x_of := 1, y_of := 1, energy := 35, age := 1\<rparr>,
                     infant\<lparr>is_alive := False\<rparr>],
           global_time = 301, is_night = True\<rparr>, [Spawn 1 0 1 1, Eat 0 0], rng_half)"
  by (simp add: update_agents_def birth_run finish_tick_def birth_end_def
      night_time Let_def)

subsection \<open>Reproduction\<close>

lemma swap_set:
  "i < length xs \<Longrightarrow> j < length xs \<Longrightarrow> set (swap i j xs) = set xs \<and> length (swap i j xs) = length xs"
  by (simp add: swap_def set_swap)

lemma shuffle_from_set:
  "i < length xs \<Longrightarrow> set (fst (shuffle_from i xs g)) = set xs"
proof (induction i arbitrary: xs g)
  case 0
  then show ?case by simp
next
  case (Suc i)
  have j: "fst (randbelow (Suc (Suc i)) g) < length xs"
    using Suc.prems by (simp add: randbelow_def) (meson less_Suc_eq_le less_le_trans mod_less_divisor not_less zero_less_Suc)
  have s: "set (swap (Suc i) (fst (randbelow (Suc (Suc i)) g)) xs) = set xs"
    "length (swap (Suc i) (fst (randbelow (Suc (Suc i)) g)) xs) = length xs"
    using swap_set [OF Suc.prems j] by simp_all
  have "i < length (swap (Suc i) (fst (randbelow (Suc (Suc i)) g)) xs)"
    using Suc.prems s(2) by simp
  from Suc.IH [OF this] show ?case using s(1) by simp
qed

lemma random_shuffle_set: "set (fst (random_shuffle xs g)) = set xs"
proof (cases xs)
  case Nil
  then show ?thesis by (simp add: random_shuffle_def)
next
  case (Cons a list)
  then have "length xs - 1 < length xs" by simp
  then show ?thesis unfolding random_shuffle_def by (rule shuffle_from_set)
qed

lemma repro_scan_spawn:
  assumes "\<exists>cell \<in> set cells. in_grid cell \<and> occupied st cell = None"
  shows "\<exists>cell \<in> set cells. in_grid cell \<and> occupied st cell = None \<and>
           repro_scan r cells st = spawn_child r cell st"
  using assms by (induction cells) (auto simp add: in_grid_def)

lemma repro_scan_none:
  assumes "\<not> (\<exists>cell \<in> set cells. in_grid cell \<and> occupied st cell = None)"
  shows "repro_scan r cells st = st"
  using assms by (induction cells) (auto simp add: in_grid_def)

lemma spawn_child_facts:
  assumes "r < length (heap st)"
  shows "new_borns (spawn_child r cell st) = new_borns st @ [length (heap st)]"
    "length (heap (spawn_child r cell st)) = Suc (length (heap st))"
    "energy (heap (spawn_child r cell st) ! r) = energy (heap st ! r) / 2"
    "energy (heap (spawn_child r cell st) ! length (heap st)) = energy (heap st ! r) / 2"
    "generation (heap (spawn_child r cell st) ! length (heap st)) = generation (heap st ! r) + 1"
    "offspring_count (heap (spawn_child r cell st) ! r) = offspring_count (heap st ! r) + 1"
    "x_of (heap (spawn_child r cell st) ! length (heap st)) = fst cell"
    "y_of (heap (spawn_child r cell st) ! length (heap st)) = snd cell"
    "is_alive (heap (spawn_child r cell st) ! length (heap st))"
  using assms by (simp_all add: spawn_child_def Let_def nth_append Agent_def)

lemma step_reproduce_spawn:
  assumes "energy (heap st ! r) > repro_threshold (genes (heap st ! r))"
    "\<exists>cell \<in> set (axis_neighbors (heap st ! r)). in_grid cell \<and> occupied st cell = None"
  shows "\<exists>cell \<in> set (axis_neighbors (heap st ! r)). \<exists>g'. in_grid cell \<and> occupied st cell = None \<and>
           step_reproduce r st = spawn_child r cell (st\<lparr>rand := g'\<rparr>)"
proof -
  define sh where "sh = random_shuffle (axis_neighbors (heap st ! r)) (rand st)"
  have set: "set (fst sh) = set (axis_neighbors (heap st ! r))"
    unfolding sh_def by (rule random_shuffle_set)
  have "\<exists>cell \<in> set (fst sh). in_grid cell \<and> occupied (st\<lparr>rand := snd sh\<rparr>) cell = None"
    using assms(2) set by simp
  from repro_scan_spawn [OF this, of r] obtain cell where
    "cell \<in> set (fst sh)" "in_grid cell" "occupied st cell = None"
    "repro_scan r (fst sh) (st\<lparr>rand := snd sh\<rparr>) = spawn_child r cell (st\<lparr>rand := snd sh\<rparr>)"
    by auto
  moreover have "step_reproduce r st = repro_scan r (fst sh) (st\<lparr>rand := snd sh\<rparr>)"
    using assms(1) by (simp add: step_reproduce_def Let_def sh_def axis_neighbors_def)
  ultimately show ?thesis using set by auto
qed

lemma step_reproduce_idle:
  assumes "\<not> (energy (heap st ! r) > repro_threshold (genes (heap st ! r)) \<and>
     (\<exists>cell \<in> set (axis_neighbors (heap st ! r)). in_grid cell \<and> occupied st cell = None))"
  shows "heap (step_reproduce r st) = heap st \<and> new_borns (step_reproduce r st) = new_borns st"
proof (cases "energy (heap st ! r) > repro_threshold (genes (heap st ! r))")
  case False
  then show ?thesis by (simp add: step_reproduce_def)
next
  case True
  define sh where "sh = random_shuffle (axis_neighbors (heap st ! r)) (rand st)"
  have set: "set (fst sh) = set (axis_neighbors (heap st ! r))"
    unfolding sh_def by (rule random_shuffle_set)
  have "\<not> (\<exists>cell \<in> set (fst sh). in_grid cell \<and> occupied (st\<lparr>rand := snd sh\<rparr>) cell = None)"
    using assms True set by simp
  then have "repro_scan r (fst sh) (st\<lparr>rand := snd sh\<rparr>) = st\<lparr>rand := snd sh\<rparr>"
    by (rule repro_scan_none)
  moreover have "step_reproduce r st = repro_scan r (fst sh) (st\<lparr>rand := snd sh\<rparr>)"
    using True by (simp add: step_reproduce_def Let_def sh_def axis_neighbors_def)
  ultimately show ?thesis by simp
qed

lemma repro_scan_cases:
  "repro_scan r cells st = st \<or> (\<exists>cell. repro_scan r cells st = spawn_child r cell st)"
  by (induction cells) auto

lemma step_reproduce_cases:
  "(\<exists>g'. step_reproduce r st = st\<lparr>rand := g'\<rparr>) \<or> step_reproduce r st = st \<or>
   (\<exists>cell g'. step_reproduce r st = spawn_child r cell (st\<lparr>rand := g'\<rparr>))"
  using repro_scan_cases [of r _ "st\<lparr>rand := g\<rparr>" for g]
  by (simp add: step_reproduce_def Let_def) metis

lemma map_update_same: "f a = f (h ! r) \<Longrightarrow> map f (h[r := a]) = map f h"
proof (cases "r < length h")
  case True
  assume "f a = f (h ! r)"
  then show ?thesis using True by (simp add: map_update list_update_same_conv)
next
  case False
  then have "h[r := a] = h" by (intro list_update_beyond) simp
  then show ?thesis by simp
qed

lemma colony_loop_counts:
  "map offspring_count (fst (colony_loop h s ns att)) = map offspring_count h"
proof (induction ns arbitrary: h att)
  case Nil
  then show ?case by simp
next
  case (Cons other rest)
  define t where "t = (energy (h ! s) - energy (h ! other)) * COLONY_SHARING_RATE * 0.5"
  define h1 where "h1 = h[s := (h ! s)\<lparr>energy := energy (h ! s) - t\<rparr>]"
  define h2 where "h2 = h1[other := (h1 ! other)\<lparr>energy := energy (h1 ! other) + t\<rparr>]"
  have "map offspring_count h1 = map offspring_count h"
    unfolding h1_def by (rule map_update_same) simp
  moreover have "map offspring_count h2 = map offspring_count h1"
    unfolding h2_def by (rule map_update_same) simp
  ultimately have 12: "map offspring_count h2 = map offspring_count h" by simp
  have a: "map offspring_count (fst (colony_loop h2 s rest True)) = map offspring_count h"
    using 12 Cons.IH [of h2 True] by simp
  have b: "map offspring_count (fst (colony_loop h s rest b)) = map offspring_count h" for b
    by (rule Cons.IH)
  show ?case
    using a b unfolding h2_def h1_def t_def by (simp add: Let_def)
qed

lemma step_photosynthesis_counts:
  assumes "step_photosynthesis night r st = Inr st'"
  shows "map offspring_count (heap st') = map offspring_count (heap st)"
  using assms
  by (auto simp add: step_photosynthesis_def Let_def map_update_same photosynthesize_def
      split: if_splits sum.splits)

lemma step_colony_counts:
  "map offspring_count (heap (fst (step_colony r st))) = map offspring_count (heap st)"
  by (simp add: step_colony_def Let_def handle_colony_def colony_loop_counts)

lemma sense_and_move_count:
  "offspring_count (fst (sense_and_move nut w hh night att a g)) = offspring_count a"
  by (simp add: sense_and_move_def seek_move_def Let_def split: option.splits)

lemma eat_prey_counts:
  "map offspring_count (heap (eat_prey r other st)) = map offspring_count (heap st)"
proof -
  define a where "a = heap st ! r"
  define g where "g = energy (heap st ! other) * PREDATOR_EAT_EFFICIENCY + DEAD_BODY_NUTRIENT"
  define h1 where "h1 = (heap st)[r := a\<lparr>energy := energy a + g\<rparr>]"
  have "map offspring_count h1 = map offspring_count (heap st)"
    unfolding h1_def a_def by (rule map_update_same) simp
  moreover have "map offspring_count (h1[other := (h1 ! other)\<lparr>is_alive := False\<rparr>]) =
      map offspring_count h1"
    by (rule map_update_same) simp
  ultimately show ?thesis by (simp add: eat_prey_def Let_def h1_def a_def g_def)
qed

lemma move_into_counts:
  "map offspring_count (heap (move_into r t st)) = map offspring_count (heap st)"
  by (simp add: move_into_def Let_def map_update_same)

lemma resolve_move_counts:
  "map offspring_count (heap (resolve_move r t st)) = map offspring_count (heap st)"
  by (simp add: resolve_move_def move_into_counts eat_prey_counts split: option.splits)

lemma step_move_counts:
  "map offspring_count (heap (step_move night att r st)) = map offspring_count (heap st)"
  by (simp add: step_move_def Let_def resolve_move_counts map_update_same sense_and_move_count)

lemma step_eat_counts:
  assumes "step_eat r st = Inr st'"
  shows "map offspring_count (heap st') = map offspring_count (heap st)"
  using assms
  by (auto simp add: step_eat_def Let_def map_update_same split: if_splits sum.splits)

lemma check_evolution_count [simp]: "offspring_count (check_evolution a) = offspring_count a"
  by (simp add: check_evolution_def)

lemma step_death_counts:
  "map offspring_count (heap (step_death r st)) = map offspring_count (heap st)"
  by (simp add: step_death_def Let_def map_update_same)

lemma step_death_new_borns: "new_borns (step_death r st) = new_borns st"
  by (simp add: step_death_def Let_def)

lemma map_eq_nth:
  assumes "map f h' = map f h" "q < length h"
  shows "f (h' ! q) = f (h ! q)"
proof -
  have "length h' = length h" using assms(1) by (rule map_eq_imp_length_eq)
  then have "map f h' ! q = f (h' ! q)" "map f h ! q = f (h ! q)" using assms(2) by simp_all
  then show ?thesis using assms(1) by simp
qed

lemma step_reproduce_counts:
  assumes "q < length (heap st)"
  shows "offspring_count (heap (step_reproduce r st) ! q) \<le>
           offspring_count (heap st ! q) + (if q = r then 1 else 0)"
    "length (new_borns (step_reproduce r st)) \<le> Suc (length (new_borns st))"
proof -
  consider g' where "step_reproduce r st = st\<lparr>rand := g'\<rparr>" | "step_reproduce r st = st"
    | cell g' where "step_reproduce r st = spawn_child r cell (st\<lparr>rand := g'\<rparr>)"
    using step_reproduce_cases [of r st] by blast
  then have "offspring_count (heap (step_reproduce r st) ! q) \<le>
           offspring_count (heap st ! q) + (if q = r then 1 else 0) \<and>
         length (new_borns (step_reproduce r st)) \<le> Suc (length (new_borns st))"
  proof cases
    case 1
    then show ?thesis by simp
  next
    case 2
    then show ?thesis by simp
  next
    case 3
    then show ?thesis using assms
      by (simp add: spawn_child_def Let_def nth_append nth_list_update)
  qed
  then show "offspring_count (heap (step_reproduce r st) ! q) \<le>
           offspring_count (heap st ! q) + (if q = r then 1 else 0)"
    "length (new_borns (step_reproduce r st)) \<le> Suc (length (new_borns st))"
    by simp_all
qed

lemma agent_step_offspring:
  assumes "tick_inv st" "r < length (heap st)"
  shows "\<exists>st'. agent_step night r st = Inr st' \<and> tick_inv st' \<and>
           length (heap st) \<le> length (heap st') \<and>
           length (new_borns st') \<le> Suc (length (new_borns st)) \<and>
           (\<forall>q < length (heap st). offspring_count (heap st' ! q) \<le>
              offspring_count (heap st ! q) + (if q = r then 1 else 0))"
proof -
  obtain st1 st3 st4 where
    1: "step_photosynthesis night r st = Inr st1" and
    3: "st3 = step_move night (snd (step_colony r st1)) r (fst (step_colony r st1))" and
    4: "step_eat r st3 = Inr st4" and n4: "length (heap st4) = length (heap st)" and
    run: "agent_step night r st = Inr (step_death r (step_reproduce r st4))"
    using agent_step_phases [OF assms, of night] by blast
  obtain st' where st': "agent_step night r st = Inr st'" "tick_inv st'"
    "length (heap st) \<le> length (heap st')"
    using agent_step_inv [OF assms, of night] by blast
  have e: "st' = step_death r (step_reproduce r st4)" using run st'(1) by simp
  have c4: "map offspring_count (heap st4) = map offspring_count (heap st)"
    using step_photosynthesis_counts [OF 1] step_colony_counts [where r = r and st = st1]
      step_move_counts [where night = night and att = "snd (step_colony r st1)" and r = r
        and st = "fst (step_colony r st1)"]
      step_eat_counts [OF 4] 3 by simp
  have nb4: "new_borns st4 = new_borns st"
    using step_photosynthesis_frame(3) [OF 1] step_colony_frame(3) [where r = r and st = st1]
      step_move_frame(3) [where night = night and att = "snd (step_colony r st1)" and r = r
        and st = "fst (step_colony r st1)"]
      step_eat_frame(2) [OF 4] 3 by simp
  have nb: "length (new_borns st') \<le> Suc (length (new_borns st))"
    using step_reproduce_counts(2) [where q = r and st = st4 and r = r] assms(2) n4 nb4
    by (simp add: e step_death_new_borns)
  have "offspring_count (heap st' ! q) \<le> offspring_count (heap st ! q) + (if q = r then 1 else 0)"
    if q: "q < length (heap st)" for q
  proof -
    have q5: "q < length (heap (step_reproduce r st4))"
      using q n4 step_reproduce_length [of st4 r] by simp
    have "offspring_count (heap st' ! q) = offspring_count (heap (step_reproduce r st4) ! q)"
      unfolding e using map_eq_nth [OF step_death_counts q5] .
    also have "\<dots> \<le> offspring_count (heap st4 ! q) + (if q = r then 1 else 0)"
      using step_reproduce_counts(1) [where q = q and st = st4 and r = r] q n4 by simp
    also have "offspring_count (heap st4 ! q) = offspring_count (heap st ! q)"
      using map_eq_nth [OF c4 q] .
    finally show ?thesis .
  qed
  then show ?thesis using st' nb by blast
qed

lemma agents_loop_offspring:
  assumes "tick_inv st" "\<forall>r \<in> set rs. r < length (heap st)" "distinct rs"
  shows "\<exists>st'. agents_loop night rs st = Inr st' \<and>
           length (new_borns st') \<le> length (new_borns st) + length rs \<and>
           (\<forall>q < length (heap st). offspring_count (heap st' ! q) \<le>
              offspring_count (heap st ! q) + (if q \<in> set rs then 1 else 0))"
  using assms
proof (induction rs arbitrary: st)
  case Nil
  then show ?case by simp
next
  case (Cons r rs)
  obtain st1 where 1: "agent_step night r st = Inr st1" "tick_inv st1"
      "length (heap st) \<le> length (heap st1)"
      "length (new_borns st1) \<le> Suc (length (new_borns st))"
      "\<forall>q < length (heap st). offspring_count (heap st1 ! q) \<le>
              offspring_count (heap st ! q) + (if q = r then 1 else 0)"
    using agent_step_offspring [of st r night] Cons.prems by auto
  have "\<forall>q \<in> set rs. q < length (heap st1)" using Cons.prems 1(3) by auto
  moreover have "distinct rs" using Cons.prems by simp
  ultimately obtain st' where 2: "agents_loop night rs st1 = Inr st'"
      "length (new_borns st') \<le> length (new_borns st1) + length rs"
      "\<forall>q < length (heap st1). offspring_count (heap st' ! q) \<le>
              offspring_count (heap st1 ! q) + (if q \<in> set rs then 1 else 0)"
    using Cons.IH [OF 1(2)] by blast
  have "offspring_count (heap st' ! q) \<le>
          offspring_count (heap st ! q) + (if q \<in> set (r # rs) then 1 else 0)"
    if q: "q < length (heap st)" for q
  proof -
    have a: "offspring_count (heap st' ! q) \<le>
              offspring_count (heap st1 ! q) + (if q \<in> set rs then 1 else 0)"
      using 2(3) q 1(3) by simp
    have b: "offspring_count (heap st1 ! q) \<le>
              offspring_count (heap st ! q) + (if q = r then 1 else 0)"
      using 1(5) q by simp
    have "r \<notin> set rs" using Cons.prems by simp
    then show ?thesis using a b by (auto split: if_splits)
  qed
  then show ?case using 1(1,4) 2(1,2) by auto
qed

lemma run_agents_offspring:
  assumes "agents_in_grid (agents e)"
  shows "\<exists>st. run_agents e g = Inr st \<and> length (new_borns st) \<le> length (agents e) \<and>
           (\<forall>q < length (agents e). offspring_count (heap st ! q) \<le>
              offspring_count (agents e ! q) + 1)"
proof -
  have "\<forall>r \<in> set [0..<length (agents e)]. r < length (heap (start_tick e g))"
    by (simp add: start_tick_heap)
  from agents_loop_offspring [OF start_tick_inv [OF assms] this, of "night_at (global_time e + 1)"]
  obtain st where "run_agents e g = Inr st"
    "length (new_borns st) \<le> length (new_borns (start_tick e g)) + length [0..<length (agents e)]"
    "\<forall>q < length (heap (start_tick e g)). offspring_count (heap st ! q) \<le>
       offspring_count (heap (start_tick e g) ! q) + (if q \<in> set [0..<length (agents e)] then 1 else 0)"
    unfolding run_agents_def by auto
  then show ?thesis by (auto simp add: start_tick_heap start_tick_def Let_def)
qed

text \<open>
  C7. The reproduction step of agent \<open>r\<close>. When its energy is strictly above its
  \<open>repro_threshold\<close> and one of the four axis-aligned neighbour cells is on the grid and
  vacant, a child is born on such a cell: it is the one new entry of \<open>new_borns\<close>, parent
  and child each hold half of the parent's energy (so the two halves add up to the energy
  before the split), the child's generation is the parent's plus one and the parent's
  \<open>offspring_count\<close> goes up by one. Otherwise the store and \<open>new_borns\<close> stay as they
  are. In any case the step adds at most one newborn; the whole body of the loop for
  \<open>r\<close> adds at most one newborn and raises the \<open>offspring_count\<close> of \<open>r\<close> by at most
  one; and over a tick, which runs the body once per agent of the population, no agent's
  \<open>offspring_count\<close> grows by more than one.
\<close>

theorem reproduction_half_split:
  assumes "r < length (heap st)"
  shows
   "(energy (heap st ! r) > repro_threshold (genes (heap st ! r)) \<and>
     (\<exists>cell \<in> set (axis_neighbors (heap st ! r)). in_grid cell \<and> occupied st cell = None) \<longrightarrow>
     (\<exists>cell \<in> set (axis_neighbors (heap st ! r)). in_grid cell \<and> occupied st cell = None \<and>
        new_borns (step_reproduce r st) = new_borns st @ [length (heap st)] \<and>
        length (heap (step_reproduce r st)) = Suc (length (heap st)) \<and>
        energy (heap (step_reproduce r st) ! r) = energy (heap st ! r) / 2 \<and>
        energy (heap (step_reproduce r st) ! length (heap st)) = energy (heap st ! r) / 2 \<and>
        energy (heap (step_reproduce r st) ! r) +
          energy (heap (step_reproduce r st) ! length (heap st)) = energy (heap st ! r) \<and>
        generation (heap (step_reproduce r st) ! length (heap st)) =
          generation (heap st ! r) + 1 \<and>
        offspring_count (heap (step_reproduce r st) ! r) = offspring_count (heap st ! r) + 1 \<and>
        (x_of (heap (step_reproduce r st) ! length (heap st)),
         y_of (heap (step_reproduce r st) ! length (heap st))) = cell)) \<and>
    (\<not> (energy (heap st ! r) > repro_threshold (genes (heap st ! r)) \<and>
         (\<exists>cell \<in> set (axis_neighbors (heap st ! r)). in_grid cell \<and> occupied st cell = None)) \<longrightarrow>
       heap (step_reproduce r st) = heap st \<and> new_borns (step_reproduce r st) = new_borns st) \<and>
    length (new_borns (step_reproduce r st)) \<le> Suc (length (new_borns st)) \<and>
    (tick_inv st \<longrightarrow>
       (\<exists>st'. agent_step night r st = Inr st' \<and>
          length (new_borns st') \<le> Suc (length (new_borns st)) \<and>
          offspring_count (heap st' ! r) \<le> offspring_count (heap st ! r) + 1)) \<and>
    (agents_in_grid (agents e) \<longrightarrow>
       (\<exists>st'. run_agents e g = Inr st' \<and> length (new_borns st') \<le> length (agents e) \<and>
          (\<forall>q < length (agents e). offspring_count (heap st' ! q) \<le>
             offspring_count (agents e ! q) + 1)))"
proof (intro conjI impI)
  assume a: "energy (heap st ! r) > repro_threshold (genes (heap st ! r)) \<and>
     (\<exists>cell \<in> set (axis_neighbors (heap st ! r)). in_grid cell \<and> occupied st cell = None)"
  then obtain cell g' where c: "cell \<in> set (axis_neighbors (heap st ! r))" "in_grid cell"
    "occupied st cell = None" "step_reproduce r st = spawn_child r cell (st\<lparr>rand := g'\<rparr>)"
    using step_reproduce_spawn [of st r] by blast
  have "r < length (heap (st\<lparr>rand := g'\<rparr>))" using assms by simp
  note f = spawn_child_facts [OF this, of cell]
  show "\<exists>cell \<in> set (axis_neighbors (heap st ! r)). in_grid cell \<and> occupied st cell = None \<and>
        new_borns (step_reproduce r st) = new_borns st @ [length (heap st)] \<and>
        length (heap (step_reproduce r st)) = Suc (length (heap st)) \<and>
        energy (heap (step_reproduce r st) ! r) = energy (heap st ! r) / 2 \<and>
        energy (heap (step_reproduce r st) ! length (heap st)) = energy (heap st ! r) / 2 \<and>
        energy (heap (step_reproduce r st) ! r) +
          energy (heap (step_reproduce r st) ! length (heap st)) = energy (heap st ! r) \<and>
        generation (heap (step_reproduce r st) ! length (heap st)) =
          generation (heap st ! r) + 1 \<and>
        offspring_count (heap (step_reproduce r st) ! r) = offspring_count (heap st ! r) + 1 \<and>
        (x_of (heap (step_reproduce r st) ! length (heap st)),
         y_of (heap (step_reproduce r st) ! length (heap st))) = cell"
    using c(1,2,3) f unfolding c(4) by (intro bexI [of _ cell]) simp_all
next
  assume "\<not> (energy (heap st ! r) > repro_threshold (genes (heap st ! r)) \<and>
         (\<exists>cell \<in> set (axis_neighbors (heap st ! r)). in_grid cell \<and> occupied st cell = None))"
  then show "heap (step_reproduce r st) = heap st" "new_borns (step_reproduce r st) = new_borns st"
    using step_reproduce_idle [of st r] by simp_all
next
  show "length (new_borns (step_reproduce r st)) \<le> Suc (length (new_borns st))"
    using step_reproduce_counts(2) [OF assms] .
next
  assume "tick_inv st"
  from agent_step_offspring [OF this assms, of night]
  show "\<exists>st'. agent_step night r st = Inr st' \<and>
          length (new_borns st') \<le> Suc (length (new_borns st)) \<and>
          offspring_count (heap st' ! r) \<le> offspring_count (heap st ! r) + 1"
    using assms by auto
next
  assume "agents_in_grid (agents e)"
  then show "\<exists>st'. run_agents e g = Inr st' \<and> length (new_borns st') \<le> length (agents e) \<and>
          (\<forall>q < length (agents e). offspring_count (heap st' ! q) \<le>
             offspring_count (agents e ! q) + 1)"
    by (rule run_agents_offspring)
qed

theorem reproduction_half_split_witness:
  "0 < length (heap birth_start) \<and>
   energy (heap birth_start ! 0) > repro_threshold (genes (heap birth_start ! 0)) \<and>
   (\<exists>cell \<in> set (axis_neighbors (heap birth_start ! 0)).
      in_grid cell \<and> occupied birth_start cell = None) \<and>
   tick_inv birth_start \<and> agents_in_grid (agents birth_env) \<and>
   (\<exists>cell \<in> set (axis_neighbors (heap birth_start ! 0)).
      in_grid cell \<and> occupied birth_start cell = None \<and>
      new_borns (step_reproduce 0 birth_start) = [2] \<and>
      energy (heap (step_reproduce 0 birth_start) ! 0) = 30.75 / 2 \<and>
      energy (heap (step_reproduce 0 birth_start) ! 2) = 30.75 / 2 \<and>
      generation (heap (step_reproduce 0 birth_start) ! 2) = 2) \<and>
   (\<exists>st'. agent_step True 0 birth_start = Inr st' \<and> length (new_borns st') \<le> 1) \<and>
   (\<exists>st'. run_agents birth_env rng_half = Inr st' \<and> length (new_borns st') \<le> 2)"
proof -
  have 1: "0 < length (heap birth_start)" by (simp add: birth_start_def)
  have 2: "energy (heap birth_start ! 0) > repro_threshold (genes (heap birth_start ! 0))"
    by (simp add: birth_start_def)
  have 3: "\<exists>cell \<in> set (axis_neighbors (heap birth_start ! 0)).
      in_grid cell \<and> occupied birth_start cell = None"
    by (simp add: birth_start_def axis_neighbors_def in_grid_def GRID_WIDTH_def GRID_HEIGHT_def)
  have 4: "tick_inv birth_start"
    by (simp add: tick_inv_def heap_in_grid_def refs_ok_def birth_start_def in_grid_def
        GRID_WIDTH_def GRID_HEIGHT_def)
  have 5: "agents_in_grid (agents birth_env)"
    by (simp add: agents_in_grid_def in_grid_def GRID_WIDTH_def GRID_HEIGHT_def)
  have h: "heap birth_start = [parent, hunter]" "new_borns birth_start = []"
    by (simp_all add: birth_start_def)
  note t = reproduction_half_split [OF 1, of True birth_env rng_half]
  have A: "\<exists>cell \<in> set (axis_neighbors (heap birth_start ! 0)).
      in_grid cell \<and> occupied birth_start cell = None \<and>
      new_borns (step_reproduce 0 birth_start) = [2] \<and>
      energy (heap (step_reproduce 0 birth_start) ! 0) = 30.75 / 2 \<and>
      energy (heap (step_reproduce 0 birth_start) ! 2) = 30.75 / 2 \<and>
      generation (heap (step_reproduce 0 birth_start) ! 2) = 2"
  proof -
    from t [THEN conjunct1] 2 3 obtain cell where
      "cell \<in> set (axis_neighbors (heap birth_start ! 0))" "in_grid cell"
      "occupied birth_start cell = None"
      "new_borns (step_reproduce 0 birth_start) =
         new_borns birth_start @ [length (heap birth_start)]"
      "energy (heap (step_reproduce 0 birth_start) ! 0) = energy (heap birth_start ! 0) / 2"
      "energy (heap (step_reproduce 0 birth_start) ! length (heap birth_start)) =
         energy (heap birth_start ! 0) / 2"
      "generation (heap (step_reproduce 0 birth_start) ! length (heap birth_start)) =
         generation (heap birth_start ! 0) + 1"
      by blast
    then show ?thesis by (intro bexI [of _ cell]) (simp_all add: h numeral_2_eq_2)
  qed
  have B: "\<exists>st'. agent_step True 0 birth_start = Inr st' \<and> length (new_borns st') \<le> 1"
    using t [THEN conjunct2, THEN conjunct2, THEN conjunct2, THEN conjunct1] 4
    by (auto simp add: h)
  have C: "\<exists>st'. run_agents birth_env rng_half = Inr st' \<and> length (new_borns st') \<le> 2"
    using t [THEN conjunct2, THEN conjunct2, THEN conjunct2, THEN conjunct2] 5
    by auto
  show ?thesis using 1 2 3 4 5 A B C by (intro conjI)
qed

subsection \<open>A predation victim in the rest of the tick\<close>

text \<open>
  C6. The night tick of \<open>night_env\<close>, hunter first. The hunter's turn ends with the grazer
  marked dead, its energy still 30 and its cell still holding 5.0. The loop then runs the
  body for the grazer all the same (no test of \<open>is_alive\<close> guards it): the dead grazer
  pays its night metabolism, \<open>0.5 * NIGHT_METABOLISM_FACTOR\<close>, takes 2.0 from the field
  and adds it to its energy, so that it ends the tick with energy 31.25 on a cell that
  holds 3.0.
\<close>

theorem predation_victim_still_acts:
  "start_tick night_env rng_half = night_start \<and>
   night_at (global_time night_env + 1) \<and>
   agent_step True 0 night_start = Inr night_mid \<and>
   \<not> is_alive (heap night_mid ! 1) \<and> energy (heap night_mid ! 1) = 30 \<and>
   field night_mid (1, 0) = 5 \<and>
   agent_step True 1 night_mid = Inr night_end \<and>
   \<not> is_alive (heap night_end ! 1) \<and>
   energy (heap night_end ! 1) = 30 - 0.5 * NIGHT_METABOLISM_FACTOR + 2 \<and>
   field night_end (1, 0) = 5 - 2 \<and>
   run_agents night_env rng_half = Inr night_end"
  using night_start_eq night_time hunter_step grazer_step night_run
  by (simp add: night_mid_def night_end_def bait_def NIGHT_METABOLISM_FACTOR_def)

text \<open>
  C1. The birth tick of \<open>birth_env\<close>, parent first. The parent's turn puts the infant,
  alive, on \<open>(1, 1)\<close>. The hunter then steps onto that cell and eats it: its energy goes
  from 18 (after its costs) to \<open>18 + 15 * PREDATOR_EAT_EFFICIENCY + DEAD_BODY_NUTRIENT\<close>,
  as the energy equation says, and the infant is marked dead. The population returned at
  the end of the tick still holds the dead infant: the survivors are filtered by
  \<open>is_alive\<close>, the newborns are appended as they are.
\<close>

theorem newborn_victim_stays:
  "agent_step True 0 birth_start = Inr birth_mid \<and>
   is_alive (heap birth_mid ! 2) \<and> energy (heap birth_mid ! 2) = 15 \<and>
   occupied birth_mid (1, 1) = Some 2 \<and>
   agent_step True 1 birth_mid = Inr birth_end \<and>
   energy (heap birth_end ! 1) = 18 + 15 * PREDATOR_EAT_EFFICIENCY + DEAD_BODY_NUTRIENT \<and>
   \<not> is_alive (heap birth_end ! 2) \<and>
   update_agents birth_env rng_half =
     Inr (\<lparr>nutrients = corner_food,
           agents = [parent\<lparr>energy := 15, age := 1, offspring_count := 1\<rparr>,
                     hunter\<lparr>x_of := 1, y_of := 1, energy := 35, age := 1\<rparr>,
                     infant\<lparr>is_alive := False\<rparr>],
           global_time = 301, is_night = True\<rparr>, [Spawn 1 0 1 1, Eat 0 0], rng_half) \<and>
   \<not> is_alive (infant\<lparr>is_alive := False\<rparr>)"
  using parent_step hunter_birth_step birth_update
  by (simp add: birth_mid_def birth_end_def PREDATOR_EAT_EFFICIENCY_def DEAD_BODY_NUTRIENT_def)

end
